theory Spec2Isabelle
  imports Complex_Main "HOL-Library.AList"
begin

section \<open>Trainer callbacks of axolotl/utils/callbacks.py\<close>

text \<open>
  Python dictionaries are association lists with pairwise distinct keys, kept in
  insertion order: \<open>d[k] = v\<close> is \<open>AList.update k v d\<close> (an existing key keeps its
  place, a new key goes to the end), and \<open>d.items()\<close> is the list itself.
  Python integers are \<open>int\<close>. Python floats are idealised as \<open>real\<close> (rounding is
  not modelled); where the source tests for NaN the value type is \<open>pyfloat\<close>.
  Every exception the modelled code can raise is a value of \<open>py_error\<close>.
\<close>

datatype py_error =
    ZeroDivisionError
  | TypeError
  | IndexError
  | RuntimeError
  | FileNotFoundError
  | ConnectionError
  | OtherError

subsection \<open>rewrite\_logs\<close>

definition startswith :: "string \<Rightarrow> string \<Rightarrow> bool" where
  "startswith k p \<longleftrightarrow> take (length p) k = p"

definition eval_prefix :: string where
  "eval_prefix = ''eval_''"

definition test_prefix :: string where
  "test_prefix = ''test_''"

text \<open>The dictionary \<open>{'train': {}, 'eval': {}, 'test': {}}\<close> with its three fixed keys.\<close>

record 'v new_d =
  train :: "(string \<times> 'v) list"
  eval :: "(string \<times> 'v) list"
  test :: "(string \<times> 'v) list"

text \<open>The body of the loop \<open>for k, v in d.items()\<close>.\<close>

fun rewrite_step :: "string \<times> 'v \<Rightarrow> 'v new_d \<Rightarrow> 'v new_d" where
  "rewrite_step (k, v) nd =
     (if startswith k eval_prefix then
        nd\<lparr>eval := AList.update (drop (length eval_prefix) k) v (eval nd)\<rparr>
      else if startswith k test_prefix then
        nd\<lparr>test := AList.update (drop (length test_prefix) k) v (test nd)\<rparr>
      else
        nd\<lparr>train := AList.update k v (train nd)\<rparr>)"

definition rewrite_logs :: "(string \<times> 'v) list \<Rightarrow> 'v new_d" where
  "rewrite_logs d = fold rewrite_step d \<lparr>train = [], eval = [], test = []\<rparr>"

subsection \<open>Objects of the host trainer\<close>

datatype IntervalStrategy = NO | STEPS | EPOCH

record TrainerControl =
  should_training_stop :: bool
  should_epoch_stop :: bool
  should_save :: bool
  should_evaluate :: bool
  should_log :: bool

text \<open>
  The fields of \<open>TrainingArguments\<close> the callbacks read. \<open>eval_steps\<close> is an optional
  float (\<open>None\<close> until set); \<open>logging_steps\<close> is a float, a step count or a ratio;
  \<open>save_steps\<close> is taken as an integral step count.
\<close>

record TrainingArguments =
  evaluation_strategy :: IntervalStrategy
  eval_steps :: "real option"
  save_strategy :: IntervalStrategy
  save_steps :: int
  logging_steps :: real
  output_dir :: string

record TrainerState =
  global_step :: int
  max_steps :: int
  is_world_process_zero :: bool

subsection \<open>EvalFirstStepCallback\<close>

text \<open>
  \<open>and\<close> short-circuits: \<open>args.eval_steps < 1.0\<close> is evaluated only when the strategy
  is STEPS, and comparing \<open>None\<close> with a float raises TypeError.
\<close>

definition EvalFirstStepCallback_on_step_end ::
  "TrainingArguments \<Rightarrow> TrainerState \<Rightarrow> TrainerControl \<Rightarrow> py_error + TrainerControl" where
  "EvalFirstStepCallback_on_step_end args state control =
     (if evaluation_strategy args = STEPS then
        (case eval_steps args of
           None \<Rightarrow> Inl TypeError
         | Some e \<Rightarrow>
             if e < 1 \<and> global_step state = 1
             then Inr (control\<lparr>should_evaluate := True\<rparr>)
             else Inr control)
      else Inr control)"

subsection \<open>SaveBetterTransformerModelCallback\<close>

text \<open>
  The checkpoint folder \<open>os.path.join(args.output_dir, f"checkpoint-{state.global_step}")\<close>
  is kept as the pair of its two components.
\<close>

type_synonym checkpoint_folder = "string \<times> int"

text \<open>
  \<open>BetterTransformer.reverse(kwargs["model"])\<close> followed by \<open>model.save_pretrained\<close> is
  an operation of the host libraries: the parameter \<open>save_pretrained\<close> says for a folder
  whether it raises. The result carries the control object and the folders written.
\<close>

definition SaveBetterTransformerModelCallback_on_step_end ::
  "(checkpoint_folder \<Rightarrow> py_error option) \<Rightarrow> TrainingArguments \<Rightarrow> TrainerState \<Rightarrow>
   TrainerControl \<Rightarrow> py_error + (TrainerControl \<times> checkpoint_folder list)" where
  "SaveBetterTransformerModelCallback_on_step_end save_pretrained args state control =
     (let control1 =
            (if save_strategy args = STEPS \<and> save_steps args > 0
                \<and> global_step state mod save_steps args = 0
             then control\<lparr>should_save := True\<rparr> else control)
      in if should_save control1 then
           (let folder = (output_dir args, global_step state)
            in case save_pretrained folder of
                 Some err \<Rightarrow> Inl err
               | None \<Rightarrow> Inr (control1\<lparr>should_save := False\<rparr>, [folder]))
         else Inr (control1, []))"

text \<open>A save is due when the step interval is reached or a save was already requested.\<close>

definition save_due :: "TrainingArguments \<Rightarrow> TrainerState \<Rightarrow> TrainerControl \<Rightarrow> bool" where
  "save_due args state control \<longleftrightarrow>
     (save_strategy args = STEPS \<and> save_steps args > 0
        \<and> global_step state mod save_steps args = 0)
     \<or> should_save control"

subsection \<open>SaveAxolotlConfigtoWandBCallback\<close>

datatype log_record = INFO string | WARNING py_error

record wandb_env =
  artifacts :: "string list"
  log :: "log_record list"

text \<open>
  The three calls in the \<open>try\<close> block (creating the artifact, adding the file, logging
  the artifact) belong to the tracking service: the parameter \<open>upload\<close> says for a config
  path whether they raise. Only FileNotFoundError and ConnectionError are caught.
\<close>

definition SaveAxolotlConfigtoWandBCallback_on_train_begin ::
  "bool \<Rightarrow> (string \<Rightarrow> py_error option) \<Rightarrow> string \<Rightarrow> TrainerControl \<Rightarrow> wandb_env \<Rightarrow>
   (py_error + TrainerControl) \<times> wandb_env" where
  "SaveAxolotlConfigtoWandBCallback_on_train_begin is_main_process upload axolotl_config_path
     control env =
     (if is_main_process then
        (case upload axolotl_config_path of
           None \<Rightarrow>
             (Inr control,
              env\<lparr>artifacts := artifacts env @ [axolotl_config_path],
                  log := log env @ [INFO ''Axolotl config has been saved to WandB as an artifact.'']\<rparr>)
         | Some err \<Rightarrow>
             if err = FileNotFoundError \<or> err = ConnectionError
             then (Inr control, env\<lparr>log := log env @ [WARNING err]\<rparr>)
             else (Inl err, env))
      else (Inr control, env))"

subsection \<open>RunPodCallback\<close>

text \<open>
  The dictionary handed to \<open>_send_update\<close>; the nested \<open>time_seconds\<close> dictionary is
  flattened into its two entries.
\<close>

record 'v progress_content =
  step :: int
  total_steps :: int
  time_seconds_elapsed :: real
  time_seconds_remaining :: real
  content_metrics :: "'v new_d option"
  wandb :: "string option"

text \<open>
  The callback object. \<open>metrics\<close> is \<open>None\<close> for the initial empty dictionary and
  \<open>Some\<close> of the rewritten logs afterwards. \<open>logged\<close> and \<open>progress_updates\<close> collect
  the messages handed to the job logger and to \<open>runpod.serverless.progress_update\<close>.
\<close>

record 'v RunPodCallback =
  last_logged_step :: "int option"
  wandb_run_url :: "string option"
  job_id :: string
  total_tracked_steps :: "int option"
  current_tracked_steps :: int
  verbose :: bool
  training_start_time :: real
  total_eval_time :: real
  last_log_time :: real
  metrics :: "'v new_d option"
  logged :: "string list"
  progress_updates :: "string list"

text \<open>\<open>__init__\<close>; \<open>t0\<close> and \<open>t1\<close> are the two readings of the clock.\<close>

definition RunPodCallback_init :: "string \<Rightarrow> bool \<Rightarrow> real \<Rightarrow> real \<Rightarrow> 'v RunPodCallback" where
  "RunPodCallback_init jid verb t0 t1 =
     \<lparr>last_logged_step = None, wandb_run_url = None, job_id = jid,
      total_tracked_steps = None, current_tracked_steps = 0, verbose = verb,
      training_start_time = t0, total_eval_time = 0, last_log_time = t1,
      metrics = None, logged = [], progress_updates = []\<rparr>"

text \<open>\<open>json.dumps\<close> is the parameter \<open>dumps\<close>.\<close>

definition send_update ::
  "('v progress_content \<Rightarrow> string) \<Rightarrow> 'v progress_content \<Rightarrow> 'v RunPodCallback \<Rightarrow>
   'v RunPodCallback" where
  "send_update dumps message_content self =
     (let message = dumps message_content
      in self\<lparr>logged := logged self @ [message],
              progress_updates := progress_updates self @ [message]\<rparr>)"

definition RunPodCallback_on_log ::
  "TrainerState \<Rightarrow> (string \<times> 'v) list \<Rightarrow> 'v RunPodCallback \<Rightarrow> 'v RunPodCallback" where
  "RunPodCallback_on_log state logs self =
     (if is_world_process_zero state then self\<lparr>metrics := Some (rewrite_logs logs)\<rparr>
      else self)"

text \<open>
  \<open>wandb_run\<close> is the URL of the active tracking run, if there is one; \<open>total_kw\<close> is
  the keyword argument \<open>total_num_training_steps\<close>, if given; \<open>now\<close> is the clock.
\<close>

definition RunPodCallback_on_train_begin ::
  "real \<Rightarrow> string option \<Rightarrow> int option \<Rightarrow> TrainerState \<Rightarrow> 'v RunPodCallback \<Rightarrow>
   'v RunPodCallback" where
  "RunPodCallback_on_train_begin now wandb_run total_kw state self =
     (let self1 = (case wandb_run of None \<Rightarrow> self
                   | Some url \<Rightarrow> self\<lparr>wandb_run_url := Some url\<rparr>)
      in if is_world_process_zero state then
           self1\<lparr>training_start_time := now,
                 total_tracked_steps :=
                   Some (case total_kw of None \<Rightarrow> max_steps state | Some n \<Rightarrow> n),
                 last_logged_step := Some (global_step state)\<rparr>
         else self1)"

text \<open>
  Python's \<open>%\<close> with a float operand: the remainder \<open>x - y * floor (x / y)\<close>, which has
  the sign of the divisor; a zero divisor raises ZeroDivisionError.
\<close>

definition py_mod :: "real \<Rightarrow> real \<Rightarrow> py_error + real" where
  "py_mod x y = (if y = 0 then Inl ZeroDivisionError else Inr (x - y * of_int \<lfloor>x / y\<rfloor>))"

text \<open>
  \<open>%\<close> and \<open>/\<close> raise ZeroDivisionError on a zero divisor, and subtracting from
  \<open>None\<close> raises TypeError; all three happen before \<open>_send_update\<close> is reached.
\<close>

definition RunPodCallback_on_step_end ::
  "('v progress_content \<Rightarrow> string) \<Rightarrow> real \<Rightarrow> TrainingArguments \<Rightarrow> TrainerState \<Rightarrow>
   'v RunPodCallback \<Rightarrow> py_error + 'v RunPodCallback" where
  "RunPodCallback_on_step_end dumps now args state self =
     (let self1 = self\<lparr>current_tracked_steps := current_tracked_steps self + 1\<rparr>;
          current_time = now;
          training_time_elapsed =
            current_time - training_start_time self1 - total_eval_time self1
      in case py_mod (real_of_int (global_step state)) (logging_steps args) of
           Inl e \<Rightarrow> Inl e
         | Inr remainder \<Rightarrow>
         if remainder = 0 then
           (if current_tracked_steps self1 = 0 then Inl ZeroDivisionError
            else
              (let time_per_step =
                     training_time_elapsed / real_of_int (current_tracked_steps self1)
               in case total_tracked_steps self1 of
                    None \<Rightarrow> Inl TypeError
                  | Some total_n \<Rightarrow>
                      (let time_remaining =
                             time_per_step * real_of_int (total_n - current_tracked_steps self1);
                           content =
                             \<lparr>step = global_step state,
                              total_steps = total_n,
                              time_seconds_elapsed = training_time_elapsed,
                              time_seconds_remaining = time_remaining,
                              content_metrics = metrics self1,
                              wandb = wandb_run_url self1\<rparr>
                       in Inr ((send_update dumps content self1)\<lparr>last_log_time := current_time\<rparr>))))
         else Inr self1)"

definition RunPodCallback_on_evaluate :: "real \<Rightarrow> 'v RunPodCallback \<Rightarrow> 'v RunPodCallback" where
  "RunPodCallback_on_evaluate now self =
     self\<lparr>total_eval_time := total_eval_time self + (now - last_log_time self)\<rparr>"

text \<open>Objects for concrete runs: a serialiser that shows the step, and logging every 10 steps.\<close>

definition json_stub :: "real progress_content \<Rightarrow> string" where
  "json_stub c = (if step c = 10 then ''step 10'' else ''other'')"

definition args10 :: TrainingArguments where
  "args10 = \<lparr>evaluation_strategy = NO, eval_steps = None, save_strategy = NO,
      save_steps = 500, logging_steps = 10, output_dir = ''out''\<rparr>"

subsection \<open>Benchmark data: tokenize\_evals and the filter\<close>

definition IGNORE_INDEX :: int where
  "IGNORE_INDEX = - 100"

text \<open>Python indexing \<open>xs[i]\<close>: a negative index counts from the end, out of range raises.\<close>

definition py_index :: "'a list \<Rightarrow> int \<Rightarrow> py_error + 'a" where
  "py_index xs i =
     (let n = int (length xs);
          j = (if i < 0 then i + n else i)
      in if 0 \<le> j \<and> j < n then Inr (xs ! nat j) else Inl IndexError)"

text \<open>
  The tokenizer belongs to the host library. \<open>tokenizer text max_length\<close> stands for
  \<open>tokenizer(text, max_length=..., truncation=True, add_special_tokens=False).input_ids\<close>
  when \<open>max_length\<close> is given, and for \<open>tokenizer(text, add_special_tokens=False).input_ids\<close>
  when it is \<open>None\<close>.
\<close>

type_synonym tokenizer = "string \<Rightarrow> nat option \<Rightarrow> int list"

text \<open>\<open>abcd_idx\<close>: the first token id of each of the letters A to G.\<close>

fun first_input_ids :: "tokenizer \<Rightarrow> string list \<Rightarrow> py_error + int list" where
  "first_input_ids tok [] = Inr []"
| "first_input_ids tok (c # cs) =
     (case py_index (tok c None) 0 of
        Inl e \<Rightarrow> Inl e
      | Inr t \<Rightarrow> (case first_input_ids tok cs of Inl e \<Rightarrow> Inl e | Inr ts \<Rightarrow> Inr (t # ts)))"

definition abcd_idx :: "tokenizer \<Rightarrow> py_error + int list" where
  "abcd_idx tok = first_input_ids tok [''A'', ''B'', ''C'', ''D'', ''E'', ''F'', ''G'']"

text \<open>
  A row of the benchmark dataset with its columns input, output, subject and name, and the
  row after \<open>map(tokenize_evals)\<close>.
\<close>

record example =
  input_str :: string
  output_str :: string
  subject :: string
  name_str :: string

record tokenized_example = example +
  input_ids :: "int list"
  labels :: "int list"

text \<open>
  \<open>tokenize_evals\<close> returns \<open>input_ids\<close>, \<open>labels\<close> and the unchanged \<open>subject\<close>;
  \<open>Dataset.map\<close> merges them into the row.
\<close>

definition tokenize_evals ::
  "tokenizer \<Rightarrow> string \<Rightarrow> string \<Rightarrow> example \<Rightarrow> tokenized_example" where
  "tokenize_evals tok bos_token eos_token ex =
     (let source = bos_token @ input_str ex;
          target = output_str ex @ eos_token;
          tokenized_source = tok source (Some 2048);
          tokenized_target = tok target (Some 2048)
      in \<lparr>input_str = input_str ex, output_str = output_str ex, subject = subject ex, name_str = name_str ex,
          input_ids = tokenized_source @ tokenized_target,
          labels = replicate (length tokenized_source) IGNORE_INDEX @ tokenized_target\<rparr>)"

text \<open>\<open>bench_dataset.filter(lambda x: x["labels"][-2] in abcd_idx)\<close>.\<close>

fun filter_bench :: "int list \<Rightarrow> tokenized_example list \<Rightarrow> py_error + tokenized_example list" where
  "filter_bench abcd [] = Inr []"
| "filter_bench abcd (x # xs) =
     (case py_index (labels x) (- 2) of
        Inl e \<Rightarrow> Inl e
      | Inr l \<Rightarrow>
          (case filter_bench abcd xs of
             Inl e \<Rightarrow> Inl e
           | Inr ys \<Rightarrow> Inr (if l \<in> set abcd then x # ys else ys)))"

definition bench_dataset ::
  "tokenizer \<Rightarrow> string \<Rightarrow> string \<Rightarrow> example list \<Rightarrow> py_error + tokenized_example list" where
  "bench_dataset tok bos_token eos_token ds =
     (case abcd_idx tok of
        Inl e \<Rightarrow> Inl e
      | Inr abcd \<Rightarrow> filter_bench abcd (map (tokenize_evals tok bos_token eos_token) ds))"

text \<open>A toy tokenizer for concrete runs: one token per character, its code.\<close>

definition char_tokenizer :: tokenizer where
  "char_tokenizer text max_length =
     (case max_length of None \<Rightarrow> map (\<lambda>c. int (of_char c)) text
      | Some n \<Rightarrow> take n (map (\<lambda>c. int (of_char c)) text))"

definition example_rows :: "example list" where
  "example_rows =
     [\<lparr>input_str = ''Q1'', output_str = ''A'', subject = ''s'', name_str = ''n''\<rparr>,
      \<lparr>input_str = ''Q2'', output_str = ''x'', subject = ''s'', name_str = ''n''\<rparr>,
      \<lparr>input_str = ''Q3'', output_str = ''yC'', subject = ''s'', name_str = ''n''\<rparr>]"

subsection \<open>BenchEvalCallback: the loop over the batches\<close>

text \<open>Mapping a function that may raise over a list stops at the first exception.\<close>

fun err_map :: "('a \<Rightarrow> py_error + 'b) \<Rightarrow> 'a list \<Rightarrow> py_error + 'b list" where
  "err_map f [] = Inr []"
| "err_map f (x # xs) =
     (case f x of
        Inl e \<Rightarrow> Inl e
      | Inr y \<Rightarrow> (case err_map f xs of Inl e \<Rightarrow> Inl e | Inr ys \<Rightarrow> Inr (y # ys)))"

text \<open>\<open>mask.nonzero()\<close> on a one-dimensional mask: the indices where it is true.\<close>

definition nonzero :: "bool list \<Rightarrow> nat list" where
  "nonzero flags = filter (\<lambda>j. flags ! j) [0..<length flags]"

text \<open>\<open>(batch["labels"][i] != IGNORE_INDEX).nonzero()[0][0]\<close>.\<close>

definition label_non_zero_id :: "int list \<Rightarrow> py_error + nat" where
  "label_non_zero_id row = py_index (nonzero (map (\<lambda>l. l \<noteq> IGNORE_INDEX) row)) 0"

text \<open>\<open>torch.argmax\<close> on a one-dimensional tensor: the index of the first maximal value.\<close>

fun argmax_from :: "nat \<Rightarrow> real \<Rightarrow> nat \<Rightarrow> real list \<Rightarrow> nat" where
  "argmax_from best bv i [] = best"
| "argmax_from best bv i (x # xs) =
     (if bv < x then argmax_from i x (Suc i) xs else argmax_from best bv (Suc i) xs)"

definition argmax :: "real list \<Rightarrow> py_error + nat" where
  "argmax xs = (case xs of [] \<Rightarrow> Inl RuntimeError | x # rest \<Rightarrow> Inr (argmax_from 0 x 1 rest))"

text \<open>
  The body of \<open>for i, logit in enumerate(logits)\<close>: \<open>logit\<close> has one row of vocabulary
  scores per position; \<open>logit[label_non_zero_id - 1][abcd_idx]\<close> picks the row before the
  first label and in it the scores of the option tokens.
\<close>

definition predict_one :: "int list \<Rightarrow> int list list \<Rightarrow> nat \<times> real list list \<Rightarrow> py_error + int" where
  "predict_one abcd batch_labels il =
     (case il of (i, logit) \<Rightarrow>
        (case py_index batch_labels (int i) of
           Inl e \<Rightarrow> Inl e
         | Inr row \<Rightarrow>
        (case label_non_zero_id row of
           Inl e \<Rightarrow> Inl e
         | Inr j \<Rightarrow>
        (case py_index logit (int j - 1) of
           Inl e \<Rightarrow> Inl e
         | Inr scores \<Rightarrow>
        (case err_map (py_index scores) abcd of
           Inl e \<Rightarrow> Inl e
         | Inr logit_abcd \<Rightarrow>
        (case argmax logit_abcd of
           Inl e \<Rightarrow> Inl e
         | Inr p \<Rightarrow> Inr (int p)))))))"

text \<open>
  \<open>.view(-1, 2)[:, 0]\<close> on a one-dimensional tensor: the first of each consecutive pair.
  An odd number of elements cannot be viewed so; no elements give no pairs.
\<close>

fun pairs_first :: "'a list \<Rightarrow> py_error + 'a list" where
  "pairs_first [] = Inr []"
| "pairs_first [x] = Inl RuntimeError"
| "pairs_first (x # y # xs) =
     (case pairs_first xs of Inl e \<Rightarrow> Inl e | Inr fs \<Rightarrow> Inr (x # fs))"

text \<open>\<open>abcd_idx.index(label) if label in abcd_idx else -1\<close>.\<close>

fun list_index :: "'a list \<Rightarrow> 'a \<Rightarrow> nat" where
  "list_index [] y = 0"
| "list_index (x # xs) y = (if x = y then 0 else Suc (list_index xs y))"

definition ref_of :: "int list \<Rightarrow> int \<Rightarrow> int" where
  "ref_of abcd label = (if label \<in> set abcd then int (list_index abcd label) else - 1)"

text \<open>
  One pass of the loop over the data loader. \<open>batch_labels\<close> is \<open>batch["labels"]\<close>, one row
  per example; the triple \<open>(loss, logits, labels)\<close> is what \<open>trainer.prediction_step\<close>
  returned for the batch (its labels are called \<open>step_labels\<close> here); the
  accumulator is \<open>(preds, refs, loss_bench)\<close>.
\<close>

definition bench_batch ::
  "int list \<Rightarrow> int list list \<Rightarrow> real \<times> real list list list \<times> int list list \<Rightarrow>
   int list \<times> int list \<times> real \<Rightarrow> py_error + (int list \<times> int list \<times> real)" where
  "bench_batch abcd batch_labels prediction acc =
     (case prediction of (loss, logits, step_labels) \<Rightarrow>
      case acc of (preds, refs, loss_bench) \<Rightarrow>
        (case err_map (predict_one abcd batch_labels) (zip [0..<length logits] logits) of
           Inl e \<Rightarrow> Inl e
         | Inr new_preds \<Rightarrow>
        (case pairs_first (filter (\<lambda>l. l \<noteq> IGNORE_INDEX) (concat step_labels)) of
           Inl e \<Rightarrow> Inl e
         | Inr firsts \<Rightarrow>
             Inr (preds @ new_preds, refs @ map (ref_of abcd) firsts, loss_bench + loss))))"

fun bench_loop ::
  "int list \<Rightarrow> (int list list \<times> (real \<times> real list list list \<times> int list list)) list \<Rightarrow>
   int list \<times> int list \<times> real \<Rightarrow> py_error + (int list \<times> int list \<times> real)" where
  "bench_loop abcd [] acc = Inr acc"
| "bench_loop abcd (b # bs) acc =
     (case bench_batch abcd (fst b) (snd b) acc of
        Inl e \<Rightarrow> Inl e
      | Inr acc' \<Rightarrow> bench_loop abcd bs acc')"

text \<open>
  Objects for concrete runs: a vocabulary of ten tokens in which 3 to 9 are the option
  letters, 1 is a token in front of the answer and 2 is the eos token.
\<close>

definition zero_scores :: "real list" where
  "zero_scores = [0, 0, 0, 0, 0, 0, 0, 0, 0, 0]"

definition flat_logit :: "real list list" where
  "flat_logit = [zero_scores, zero_scores, zero_scores, zero_scores]"

definition toy_abcd :: "int list" where
  "toy_abcd = [3, 4, 5, 6, 7, 8, 9]"

definition peak3 :: "real list" where
  "peak3 = [0, 0, 0, 1, 0, 0, 0, 0, 0, 0]"

definition peak5 :: "real list" where
  "peak5 = [0, 0, 0, 0, 0, 1, 0, 0, 0, 0]"

subsection \<open>BenchEvalCallback: aggregation over the ranks\<close>

text \<open>A float that may be NaN, as the accuracy metric and \<open>np.mean\<close> can return.\<close>

datatype pyfloat = NaN | Num real

text \<open>
  The accuracy metric is loaded from the \<open>evaluate\<close> library; it is the parameter
  \<open>accuracy references predictions\<close> of the definitions below.
  The dictionary \<open>{"refs": [...], "preds": [...]}\<close> of a category is the pair
  \<open>(refs, preds)\<close>.
\<close>

type_synonym bench_data = "int list \<times> int list"

type_synonym bench_names = "(string \<times> bench_data) list"

type_synonym results = "(string \<times> pyfloat) list"

definition bench_split :: string where
  "bench_split = ''eval''"

text \<open>
  The keys of the results dictionary: \<open>f"{bench_split}_bench_loss"\<close>,
  \<open>f"{bench_split}_bench_accuracy_{bench_name}"\<close>, \<open>f"{bench_split}_bench_average_accuracy"\<close>
  and \<open>f"{bench_split}_bench_total_accuracy"\<close>.
\<close>

definition loss_key :: string where
  "loss_key = bench_split @ ''_bench_loss''"

definition accuracy_key :: "string \<Rightarrow> string" where
  "accuracy_key bench_name = bench_split @ ''_bench_accuracy_'' @ bench_name"

definition average_accuracy_key :: string where
  "average_accuracy_key = bench_split @ ''_bench_average_accuracy''"

definition total_accuracy_key :: string where
  "total_accuracy_key = bench_split @ ''_bench_total_accuracy''"

text \<open>The body of \<open>for name, data in bench_name.items()\<close>.\<close>

definition combine_entry :: "string \<times> bench_data \<Rightarrow> bench_names \<Rightarrow> bench_names" where
  "combine_entry nd combined_bench_names =
     (case nd of (name, data) \<Rightarrow>
        (let combined1 =
               (if map_of combined_bench_names name = None
                then AList.update name ([], []) combined_bench_names
                else combined_bench_names)
         in AList.map_entry name (\<lambda>e. (fst e @ fst data, snd e @ snd data)) combined1))"

definition combine_bench_names :: "bench_names list \<Rightarrow> bench_names" where
  "combine_bench_names gathered_bench_names =
     fold (\<lambda>bench_name combined. fold combine_entry bench_name combined) gathered_bench_names []"

text \<open>
  The body of \<open>for bench_name in combined_bench_names\<close>; the keys of the dictionary are
  distinct, so going through the keys and looking each one up is going through the items.
  The accumulator is \<open>(results, bench_scores, bench_refs, bench_preds)\<close>.
\<close>

definition score_entry ::
  "(int list \<Rightarrow> int list \<Rightarrow> pyfloat) \<Rightarrow> string \<times> bench_data \<Rightarrow>
   results \<times> real list \<times> int list \<times> int list \<Rightarrow> results \<times> real list \<times> int list \<times> int list" where
  "score_entry accuracy nd acc =
     (case nd of (bench_name, data) \<Rightarrow>
      case acc of (results, bench_scores, bench_refs, bench_preds) \<Rightarrow>
        (case accuracy (fst data) (snd data) of
           Num bench_score \<Rightarrow>
             (AList.update (accuracy_key bench_name) (Num bench_score) results,
              bench_scores @ [bench_score], bench_refs @ fst data, bench_preds @ snd data)
         | NaN \<Rightarrow>
             (AList.update (accuracy_key bench_name) (Num 0) results,
              bench_scores @ [0], bench_refs @ fst data, bench_preds @ snd data)))"

text \<open>\<open>np.mean\<close> of a list of floats; the mean of no values is NaN.\<close>

definition np_mean :: "real list \<Rightarrow> pyfloat" where
  "np_mean xs = (if xs = [] then NaN else Num (sum_list xs / real (length xs)))"

text \<open>
  The branch of the main process: the bench loss, the merge of the gathered
  dictionaries, the scores. Dividing by a zero sum raises ZeroDivisionError.
  \<open>trainer.log(results)\<close> hands the results to the trainer and leaves them as they are.
\<close>

definition compute_results ::
  "(int list \<Rightarrow> int list \<Rightarrow> pyfloat) \<Rightarrow> real list \<Rightarrow> nat list \<Rightarrow> bench_names list \<Rightarrow>
   py_error + results" where
  "compute_results accuracy loss_bench_ranks len_data_loader_ranks gathered_bench_names =
     (if sum_list len_data_loader_ranks = 0 then Inl ZeroDivisionError
      else
        (let bench_loss = sum_list loss_bench_ranks / real (sum_list len_data_loader_ranks);
             results0 = [(loss_key, Num bench_loss)];
             combined_bench_names = combine_bench_names gathered_bench_names
         in case fold (score_entry accuracy) combined_bench_names (results0, [], [], []) of
              (results1, bench_scores, bench_refs, bench_preds) \<Rightarrow>
                Inr (AList.update total_accuracy_key
                       (accuracy bench_refs bench_preds)
                       (AList.update average_accuracy_key
                          (np_mean bench_scores) results1))))"

text \<open>
  What one process holds when the loop over its batches is done and its predictions and
  references are sorted by category: \<open>loss_bench\<close>, \<open>len(data_loader)\<close>,
  \<open>local_bench_names\<close> and the \<open>metrics\<close> argument.
\<close>

record rank_state =
  rank_loss_bench :: real
  rank_len_data_loader :: nat
  rank_local_bench_names :: bench_names
  rank_metrics :: results

text \<open>
  Modelled from the spec: \<open>gather_scalar_from_all_ranks\<close> of axolotl.utils.distributed is
  not among the sources; the spec names it as a gather onto the coordinating process. On
  the main process of a distributed run it returns the values of all ranks in rank order,
  on the other ranks nothing that is used; without a process group it returns the value of
  the calling process alone.
\<close>

definition gather_scalar_from_all_ranks ::
  "bool \<Rightarrow> rank_state list \<Rightarrow> nat \<Rightarrow> (rank_state \<Rightarrow> 'a) \<Rightarrow> 'a list" where
  "gather_scalar_from_all_ranks is_distributed world r fn =
     (if is_distributed then (if r = 0 then map fn world else [])
      else [fn (world ! r)])"

text \<open>
  Modelled from the spec: \<open>broadcast_dict\<close> of axolotl.utils.distributed is not among the
  sources; the spec names it as the broadcast back to all workers. In a distributed run
  every rank receives the dictionary of rank 0; without a process group the dictionary is
  returned as it is. \<open>results_ranks\<close> holds the argument of each rank.
\<close>

definition broadcast_dict :: "bool \<Rightarrow> results list \<Rightarrow> nat \<Rightarrow> results" where
  "broadcast_dict is_distributed results_ranks r =
     (if is_distributed then results_ranks ! 0 else results_ranks ! r)"

text \<open>
  \<open>results\<close> of rank \<open>r\<close> before the broadcast. \<open>is_main_process()\<close> holds without a
  process group, and for rank 0 with one; \<open>dist.gather_object\<close> hands the dictionaries of
  all ranks to rank 0.
\<close>

definition rank_results ::
  "(int list \<Rightarrow> int list \<Rightarrow> pyfloat) \<Rightarrow> bool \<Rightarrow> rank_state list \<Rightarrow> nat \<Rightarrow> py_error + results" where
  "rank_results accuracy is_distributed world r =
     (let is_main_process = (\<not> is_distributed \<or> r = 0);
          loss_bench_ranks =
            gather_scalar_from_all_ranks is_distributed world r rank_loss_bench;
          len_data_loader_ranks =
            gather_scalar_from_all_ranks is_distributed world r rank_len_data_loader
      in if is_distributed \<and> \<not> is_main_process then Inr []
         else
           (let gathered_bench_names =
                  (if is_distributed then map rank_local_bench_names world
                   else [rank_local_bench_names (world ! r)])
            in compute_results accuracy loss_bench_ranks len_data_loader_ranks
                 gathered_bench_names))"

text \<open>\<open>for key, val in results.items(): metrics[key] = val\<close>, on the \<open>metrics\<close> argument.\<close>

definition merge_results :: "results \<Rightarrow> results \<Rightarrow> results" where
  "merge_results results eval_metrics =
     fold (\<lambda>kv m. AList.update (fst kv) (snd kv) m) results eval_metrics"

text \<open>
  \<open>on_evaluate\<close> on all processes of the world, rank by rank: the metrics dictionary of
  each process when the callback has returned, or the exception that stops the run.
\<close>

definition on_evaluate ::
  "(int list \<Rightarrow> int list \<Rightarrow> pyfloat) \<Rightarrow> bool \<Rightarrow> rank_state list \<Rightarrow> py_error + results list" where
  "on_evaluate accuracy is_distributed world =
     (case err_map (rank_results accuracy is_distributed world) [0..<length world] of
        Inl e \<Rightarrow> Inl e
      | Inr results_ranks \<Rightarrow>
          Inr (map (\<lambda>r. merge_results (broadcast_dict is_distributed results_ranks r)
                          (rank_metrics (world ! r)))
                 [0..<length world]))"

text \<open>
  For concrete runs: accuracy as the fraction of positions where prediction and reference
  agree, NaN when there is no position.
\<close>

definition toy_accuracy :: "int list \<Rightarrow> int list \<Rightarrow> pyfloat" where
  "toy_accuracy references predictions =
     (if references = [] then NaN
      else Num (real (length (filter (\<lambda>rp. fst rp = snd rp) (zip references predictions)))
                  / real (length references)))"

text \<open>The score a category contributes: its accuracy, and 0 in place of NaN.\<close>

fun nan_to_zero :: "pyfloat \<Rightarrow> real" where
  "nan_to_zero NaN = 0"
| "nan_to_zero (Num x) = x"

definition toy_world :: "rank_state list" where
  "toy_world =
     [\<lparr>rank_loss_bench = 2, rank_len_data_loader = 1,
       rank_local_bench_names = [(''math'', ([0, 1], [0, 2])), (''law'', ([], []))],
       rank_metrics = [(''eval_loss'', Num 3)]\<rparr>,
      \<lparr>rank_loss_bench = 0, rank_len_data_loader = 3,
       rank_local_bench_names = [(''bio'', ([3], [3])), (''math'', ([4, 5], [4, 5]))],
       rank_metrics = [(''eval_bench_loss'', Num 9), (''eval_loss'', Num 3)]\<rparr>]"

section \<open>Properties\<close>

subsection \<open>rewrite\_logs\<close>

lemma update_fresh: "k \<notin> fst ` set al \<Longrightarrow> AList.update k v al = al @ [(k, v)]"
  by (induction al) auto

lemma startswith_split: "startswith k p \<Longrightarrow> k = p @ drop (length p) k"
  unfolding startswith_def by (metis append_take_drop_id)

lemma strip_inj:
  "startswith k p \<Longrightarrow> startswith k' p \<Longrightarrow> drop (length p) k = drop (length p) k' \<Longrightarrow> k = k'"
  by (metis startswith_split)

lemma fold_rewrite_step:
  "distinct (map fst d) \<Longrightarrow>
   (\<forall>k \<in> fst ` set d. startswith k eval_prefix \<longrightarrow> drop (length eval_prefix) k \<notin> fst ` set (eval nd)) \<Longrightarrow>
   (\<forall>k \<in> fst ` set d. startswith k test_prefix \<longrightarrow> drop (length test_prefix) k \<notin> fst ` set (test nd)) \<Longrightarrow>
   (\<forall>k \<in> fst ` set d. k \<notin> fst ` set (train nd)) \<Longrightarrow>
   fold rewrite_step d nd =
     \<lparr>train = train nd @ filter (\<lambda>(k, v). \<not> startswith k eval_prefix \<and> \<not> startswith k test_prefix) d,
      eval = eval nd @ map (\<lambda>(k, v). (drop (length eval_prefix) k, v))
                   (filter (\<lambda>(k, v). startswith k eval_prefix) d),
      test = test nd @ map (\<lambda>(k, v). (drop (length test_prefix) k, v))
                   (filter (\<lambda>(k, v). \<not> startswith k eval_prefix \<and> startswith k test_prefix) d)\<rparr>"
proof (induction d arbitrary: nd)
  case Nil
  then show ?case by simp
next
  case (Cons a d)
  obtain k v where a: "a = (k, v)" by (cases a)
  from Cons.prems(1) a have dist: "distinct (map fst d)" and knot: "k \<notin> fst ` set d" by auto
  show ?case
  proof (cases "startswith k eval_prefix")
    case True
    let ?nd = "nd\<lparr>eval := AList.update (drop (length eval_prefix) k) v (eval nd)\<rparr>"
    from Cons.prems(2) a True have fresh: "drop (length eval_prefix) k \<notin> fst ` set (eval nd)" by auto
    have upd: "eval ?nd = eval nd @ [(drop (length eval_prefix) k, v)]"
      using update_fresh[OF fresh] by simp
    have p2: "\<forall>k' \<in> fst ` set d. startswith k' eval_prefix \<longrightarrow> drop (length eval_prefix) k' \<notin> fst ` set (eval ?nd)"
    proof (intro ballI impI)
      fix k' assume k': "k' \<in> fst ` set d" and sw: "startswith k' eval_prefix"
      from k' knot have "k' \<noteq> k" by auto
      with strip_inj[OF sw True] have "drop (length eval_prefix) k' \<noteq> drop (length eval_prefix) k" by auto
      moreover from Cons.prems(2) k' sw have "drop (length eval_prefix) k' \<notin> fst ` set (eval nd)" by auto
      ultimately show "drop (length eval_prefix) k' \<notin> fst ` set (eval ?nd)"
        unfolding upd by auto
    qed
    have p3: "\<forall>k' \<in> fst ` set d. startswith k' test_prefix \<longrightarrow> drop (length test_prefix) k' \<notin> fst ` set (test ?nd)"
      using Cons.prems(3) by auto
    have p4: "\<forall>k' \<in> fst ` set d. k' \<notin> fst ` set (train ?nd)"
      using Cons.prems(4) by auto
    have "fold rewrite_step (a # d) nd = fold rewrite_step d ?nd"
      using a True by simp
    also note Cons.IH[OF dist p2 p3 p4]
    finally show ?thesis using a True upd by simp
  next
    case False
    note nev = False
    show ?thesis
    proof (cases "startswith k test_prefix")
      case True
      let ?nd = "nd\<lparr>test := AList.update (drop (length test_prefix) k) v (test nd)\<rparr>"
      from Cons.prems(3) a True have fresh: "drop (length test_prefix) k \<notin> fst ` set (test nd)" by auto
      have upd: "test ?nd = test nd @ [(drop (length test_prefix) k, v)]"
        using update_fresh[OF fresh] by simp
      have p3: "\<forall>k' \<in> fst ` set d. startswith k' test_prefix \<longrightarrow> drop (length test_prefix) k' \<notin> fst ` set (test ?nd)"
      proof (intro ballI impI)
        fix k' assume k': "k' \<in> fst ` set d" and sw: "startswith k' test_prefix"
        from k' knot have "k' \<noteq> k" by auto
        with strip_inj[OF sw True] have "drop (length test_prefix) k' \<noteq> drop (length test_prefix) k" by auto
        moreover from Cons.prems(3) k' sw have "drop (length test_prefix) k' \<notin> fst ` set (test nd)" by auto
        ultimately show "drop (length test_prefix) k' \<notin> fst ` set (test ?nd)"
          unfolding upd by auto
      qed
      have p2: "\<forall>k' \<in> fst ` set d. startswith k' eval_prefix \<longrightarrow> drop (length eval_prefix) k' \<notin> fst ` set (eval ?nd)"
        using Cons.prems(2) by auto
      have p4: "\<forall>k' \<in> fst ` set d. k' \<notin> fst ` set (train ?nd)"
        using Cons.prems(4) by auto
      have "fold rewrite_step (a # d) nd = fold rewrite_step d ?nd"
        using a True nev by simp
      also note Cons.IH[OF dist p2 p3 p4]
      finally show ?thesis using a True nev upd by simp
    next
      case False
      let ?nd = "nd\<lparr>train := AList.update k v (train nd)\<rparr>"
      from Cons.prems(4) a have fresh: "k \<notin> fst ` set (train nd)" by auto
      have upd: "train ?nd = train nd @ [(k, v)]"
        using update_fresh[OF fresh] by simp
      have p4: "\<forall>k' \<in> fst ` set d. k' \<notin> fst ` set (train ?nd)"
        unfolding upd using Cons.prems(4) knot by auto
      have p2: "\<forall>k' \<in> fst ` set d. startswith k' eval_prefix \<longrightarrow> drop (length eval_prefix) k' \<notin> fst ` set (eval ?nd)"
        using Cons.prems(2) by auto
      have p3: "\<forall>k' \<in> fst ` set d. startswith k' test_prefix \<longrightarrow> drop (length test_prefix) k' \<notin> fst ` set (test ?nd)"
        using Cons.prems(3) by auto
      have "fold rewrite_step (a # d) nd = fold rewrite_step d ?nd"
        using a False nev by simp
      also note Cons.IH[OF dist p2 p3 p4]
      finally show ?thesis using a False nev upd by simp
    qed
  qed
qed

lemma length_three_way:
  "length (filter (\<lambda>x. \<not> P x \<and> \<not> Q x) d) + length (filter P d)
     + length (filter (\<lambda>x. \<not> P x \<and> Q x) d) = length d"
  by (induction d) auto

text \<open>
  Claim C10. For a dictionary \<open>d\<close> (distinct keys), \<open>rewrite_logs d\<close> has exactly the three
  buckets train, eval and test. The eval bucket holds, in order, the entries whose key
  starts with \<open>eval_\<close>, with the prefix removed; the test bucket those whose key starts with
  \<open>test_\<close> (and not with \<open>eval_\<close>), with the prefix removed; the train bucket all other
  entries with their keys as they are. Values are unchanged, every entry is in exactly one
  bucket, and the three buckets together have as many entries as \<open>d\<close>.
\<close>

theorem rewrite_logs_partition:
  assumes "distinct (map fst d)"
  shows "train (rewrite_logs d)
           = filter (\<lambda>(k, v). \<not> startswith k eval_prefix \<and> \<not> startswith k test_prefix) d
       \<and> eval (rewrite_logs d)
           = map (\<lambda>(k, v). (drop (length eval_prefix) k, v))
               (filter (\<lambda>(k, v). startswith k eval_prefix) d)
       \<and> test (rewrite_logs d)
           = map (\<lambda>(k, v). (drop (length test_prefix) k, v))
               (filter (\<lambda>(k, v). \<not> startswith k eval_prefix \<and> startswith k test_prefix) d)
       \<and> length (train (rewrite_logs d)) + length (eval (rewrite_logs d))
           + length (test (rewrite_logs d)) = length d"
proof -
  have r: "rewrite_logs d =
     \<lparr>train = filter (\<lambda>(k, v). \<not> startswith k eval_prefix \<and> \<not> startswith k test_prefix) d,
      eval = map (\<lambda>(k, v). (drop (length eval_prefix) k, v))
                   (filter (\<lambda>(k, v). startswith k eval_prefix) d),
      test = map (\<lambda>(k, v). (drop (length test_prefix) k, v))
                   (filter (\<lambda>(k, v). \<not> startswith k eval_prefix \<and> startswith k test_prefix) d)\<rparr>"
    unfolding rewrite_logs_def using fold_rewrite_step[OF assms, of "\<lparr>train = [], eval = [], test = []\<rparr>"]
    by simp
  have "length (filter (\<lambda>x. \<not> (\<lambda>(k, v). startswith k eval_prefix) x
                             \<and> \<not> (\<lambda>(k, v). startswith k test_prefix) x) d)
        + length (filter (\<lambda>(k, v). startswith k eval_prefix) d)
        + length (filter (\<lambda>x. \<not> (\<lambda>(k, v). startswith k eval_prefix) x
                             \<and> (\<lambda>(k, v). startswith k test_prefix) x) d) = length d"
    by (rule length_three_way)
  then have "length (filter (\<lambda>(k, v). \<not> startswith k eval_prefix \<and> \<not> startswith k test_prefix) d)
        + length (filter (\<lambda>(k, v). startswith k eval_prefix) d)
        + length (filter (\<lambda>(k, v). \<not> startswith k eval_prefix \<and> startswith k test_prefix) d)
        = length d"
    by (simp add: case_prod_unfold)
  then show ?thesis by (simp add: r)
qed

theorem rewrite_logs_partition_witness:
  "distinct (map fst [(''eval_loss'', 1::int), (''loss'', 2), (''test_acc'', 3),
                      (''eval_test_x'', 4), (''epoch'', 5)])
   \<and> train (rewrite_logs [(''eval_loss'', 1::int), (''loss'', 2), (''test_acc'', 3),
                      (''eval_test_x'', 4), (''epoch'', 5)]) = [(''loss'', 2), (''epoch'', 5)]
   \<and> eval (rewrite_logs [(''eval_loss'', 1::int), (''loss'', 2), (''test_acc'', 3),
                      (''eval_test_x'', 4), (''epoch'', 5)]) = [(''loss'', 1), (''test_x'', 4)]
   \<and> test (rewrite_logs [(''eval_loss'', 1::int), (''loss'', 2), (''test_acc'', 3),
                      (''eval_test_x'', 4), (''epoch'', 5)]) = [(''acc'', 3)]"
  using rewrite_logs_partition [of "[(''eval_loss'', 1::int), (''loss'', 2), (''test_acc'', 3),
                      (''eval_test_x'', 4), (''epoch'', 5)]"]
  by (simp add: startswith_def eval_prefix_def test_prefix_def)

subsection \<open>EvalFirstStepCallback\<close>

text \<open>
  Claim C6. With the arguments as the trainer builds them (an evaluation strategy of STEPS
  comes with \<open>eval_steps\<close> set), \<open>on_step_end\<close> returns the control object with
  \<open>should_evaluate\<close> set to True exactly when the strategy is STEPS, \<open>eval_steps\<close> is below
  1 and \<open>global_step\<close> is 1, and returns the control object as it was in every other case.
\<close>

theorem EvalFirstStepCallback_on_step_end_spec:
  assumes "evaluation_strategy args = STEPS \<longrightarrow> eval_steps args \<noteq> None"
  shows "EvalFirstStepCallback_on_step_end args state control =
     Inr (if evaluation_strategy args = STEPS \<and> (case eval_steps args of None \<Rightarrow> False | Some e \<Rightarrow> e < 1)
             \<and> global_step state = 1
          then control\<lparr>should_evaluate := True\<rparr> else control)"
  using assms unfolding EvalFirstStepCallback_on_step_end_def
  by (auto split: option.splits)


theorem EvalFirstStepCallback_on_step_end_spec_witness:
  "EvalFirstStepCallback_on_step_end
     \<lparr>evaluation_strategy = STEPS, eval_steps = Some (1/2), save_strategy = NO,
      save_steps = 500, logging_steps = 10, output_dir = ''out''\<rparr>
     \<lparr>global_step = 1, max_steps = 100, is_world_process_zero = True\<rparr>
     \<lparr>should_training_stop = False, should_epoch_stop = False, should_save = False,
      should_evaluate = False, should_log = True\<rparr>
   = Inr \<lparr>should_training_stop = False, should_epoch_stop = False, should_save = False,
      should_evaluate = True, should_log = True\<rparr>
   \<and> EvalFirstStepCallback_on_step_end
     \<lparr>evaluation_strategy = STEPS, eval_steps = Some 50, save_strategy = NO,
      save_steps = 500, logging_steps = 10, output_dir = ''out''\<rparr>
     \<lparr>global_step = 1, max_steps = 100, is_world_process_zero = True\<rparr>
     \<lparr>should_training_stop = False, should_epoch_stop = False, should_save = False,
      should_evaluate = False, should_log = True\<rparr>
   = Inr \<lparr>should_training_stop = False, should_epoch_stop = False, should_save = False,
      should_evaluate = False, should_log = True\<rparr>"
  using EvalFirstStepCallback_on_step_end_spec
     [of "\<lparr>evaluation_strategy = STEPS, eval_steps = Some (1/2), save_strategy = NO,
      save_steps = 500, logging_steps = 10, output_dir = ''out''\<rparr>"
      "\<lparr>global_step = 1, max_steps = 100, is_world_process_zero = True\<rparr>"
      "\<lparr>should_training_stop = False, should_epoch_stop = False, should_save = False,
      should_evaluate = False, should_log = True\<rparr>"]
    EvalFirstStepCallback_on_step_end_spec
     [of "\<lparr>evaluation_strategy = STEPS, eval_steps = Some 50, save_strategy = NO,
      save_steps = 500, logging_steps = 10, output_dir = ''out''\<rparr>"
      "\<lparr>global_step = 1, max_steps = 100, is_world_process_zero = True\<rparr>"
      "\<lparr>should_training_stop = False, should_epoch_stop = False, should_save = False,
      should_evaluate = False, should_log = True\<rparr>"]
  by simp

subsection \<open>SaveBetterTransformerModelCallback\<close>

text \<open>
  Claim C9. Whenever \<open>on_step_end\<close> returns, \<open>should_save\<close> is False and no other field of
  the control object has changed; the checkpoint folder has been written by the callback
  exactly when a save was due (the step interval was reached under the STEPS strategy, or
  \<open>should_save\<close> was set on entry). It returns whenever saving the model does not raise.
\<close>

theorem SaveBetterTransformerModelCallback_clears_should_save:
  "(\<forall>c w. SaveBetterTransformerModelCallback_on_step_end save_pretrained args state control
             = Inr (c, w) \<longrightarrow>
        \<not> should_save c
      \<and> c = control\<lparr>should_save := False\<rparr>
      \<and> w = (if save_due args state control then [(output_dir args, global_step state)] else []))
   \<and> (save_pretrained (output_dir args, global_step state) = None \<longrightarrow>
        (\<exists>c w. SaveBetterTransformerModelCallback_on_step_end save_pretrained args state control
                 = Inr (c, w)))"
  unfolding SaveBetterTransformerModelCallback_on_step_end_def save_due_def
  by (auto simp: Let_def split: option.splits if_splits)

theorem SaveBetterTransformerModelCallback_clears_should_save_witness:
  "SaveBetterTransformerModelCallback_on_step_end (\<lambda>f. None)
     \<lparr>evaluation_strategy = NO, eval_steps = None, save_strategy = STEPS,
      save_steps = 5, logging_steps = 10, output_dir = ''out''\<rparr>
     \<lparr>global_step = 10, max_steps = 100, is_world_process_zero = True\<rparr>
     \<lparr>should_training_stop = False, should_epoch_stop = False, should_save = False,
      should_evaluate = False, should_log = True\<rparr>
   = Inr (\<lparr>should_training_stop = False, should_epoch_stop = False, should_save = False,
      should_evaluate = False, should_log = True\<rparr>, [(''out'', 10)])"
proof -
  let ?args = "\<lparr>evaluation_strategy = NO, eval_steps = None, save_strategy = STEPS,
      save_steps = 5, logging_steps = 10, output_dir = ''out''\<rparr>"
  let ?state = "\<lparr>global_step = 10, max_steps = 100, is_world_process_zero = True\<rparr>"
  let ?control = "\<lparr>should_training_stop = False, should_epoch_stop = False,
      should_save = False, should_evaluate = False, should_log = True\<rparr>"
  note t = SaveBetterTransformerModelCallback_clears_should_save
             [of "\<lambda>f. None" ?args ?state ?control]
  from t obtain c w where
    r: "SaveBetterTransformerModelCallback_on_step_end (\<lambda>f. None) ?args ?state ?control
          = Inr (c, w)"
    by auto
  with t have "c = ?control\<lparr>should_save := False\<rparr>"
    and "w = (if save_due ?args ?state ?control then [(output_dir ?args, global_step ?state)]
              else [])"
    by blast+
  with r show ?thesis by (simp add: save_due_def)
qed

subsection \<open>SaveAxolotlConfigtoWandBCallback\<close>

text \<open>
  Claim C8. \<open>on_train_begin\<close> touches the tracking service only on the main process: on any
  other process it returns the control object and leaves the environment as it was. On the
  main process a successful upload adds the configuration file as an artifact; a
  FileNotFoundError or ConnectionError raised by the upload is caught, a warning is logged
  and the control object is returned unchanged. Neither of the two errors is ever
  propagated.
\<close>

theorem SaveAxolotlConfig_on_train_begin_spec:
  "(\<not> is_main \<longrightarrow>
      SaveAxolotlConfigtoWandBCallback_on_train_begin is_main upload path control env
        = (Inr control, env))
   \<and> (is_main \<and> upload path = None \<longrightarrow>
      SaveAxolotlConfigtoWandBCallback_on_train_begin is_main upload path control env
        = (Inr control,
           env\<lparr>artifacts := artifacts env @ [path],
               log := log env @ [INFO ''Axolotl config has been saved to WandB as an artifact.'']\<rparr>))
   \<and> (\<forall>err. is_main \<and> upload path = Some err
            \<and> (err = FileNotFoundError \<or> err = ConnectionError) \<longrightarrow>
      SaveAxolotlConfigtoWandBCallback_on_train_begin is_main upload path control env
        = (Inr control, env\<lparr>log := log env @ [WARNING err]\<rparr>))
   \<and> fst (SaveAxolotlConfigtoWandBCallback_on_train_begin is_main upload path control env)
        \<noteq> Inl FileNotFoundError
   \<and> fst (SaveAxolotlConfigtoWandBCallback_on_train_begin is_main upload path control env)
        \<noteq> Inl ConnectionError"
  unfolding SaveAxolotlConfigtoWandBCallback_on_train_begin_def
  by (auto split: option.splits)

theorem SaveAxolotlConfig_on_train_begin_spec_witness:
  "SaveAxolotlConfigtoWandBCallback_on_train_begin True (\<lambda>p. Some FileNotFoundError)
     ''config.yml''
     \<lparr>should_training_stop = False, should_epoch_stop = False, should_save = False,
      should_evaluate = False, should_log = False\<rparr>
     \<lparr>artifacts = [], log = []\<rparr>
   = (Inr \<lparr>should_training_stop = False, should_epoch_stop = False, should_save = False,
      should_evaluate = False, should_log = False\<rparr>,
      \<lparr>artifacts = [], log = [WARNING FileNotFoundError]\<rparr>)
   \<and> SaveAxolotlConfigtoWandBCallback_on_train_begin False (\<lambda>p. None) ''config.yml''
     \<lparr>should_training_stop = False, should_epoch_stop = False, should_save = False,
      should_evaluate = False, should_log = False\<rparr>
     \<lparr>artifacts = [], log = []\<rparr>
   = (Inr \<lparr>should_training_stop = False, should_epoch_stop = False, should_save = False,
      should_evaluate = False, should_log = False\<rparr>,
      \<lparr>artifacts = [], log = []\<rparr>)"
  using SaveAxolotlConfig_on_train_begin_spec
          [of True "\<lambda>p. Some FileNotFoundError" "''config.yml''"
              "\<lparr>should_training_stop = False, should_epoch_stop = False, should_save = False,
                should_evaluate = False, should_log = False\<rparr>"
              "\<lparr>artifacts = [], log = []\<rparr>"]
        SaveAxolotlConfig_on_train_begin_spec
          [of False "\<lambda>p. None" "''config.yml''"
              "\<lparr>should_training_stop = False, should_epoch_stop = False, should_save = False,
                should_evaluate = False, should_log = False\<rparr>"
              "\<lparr>artifacts = [], log = []\<rparr>"]
  by simp

subsection \<open>RunPodCallback\<close>

lemma py_mod_zero_iff:
  assumes "y \<noteq> 0"
  shows "py_mod x y = Inr 0 \<longleftrightarrow> (\<exists>k::int. x = of_int k * y)"
proof
  assume "py_mod x y = Inr 0"
  with assms have "x = of_int \<lfloor>x / y\<rfloor> * y" by (simp add: py_mod_def mult.commute)
  then show "\<exists>k::int. x = of_int k * y" by blast
next
  assume "\<exists>k::int. x = of_int k * y"
  then obtain k :: int where k: "x = of_int k * y" by blast
  with assms have "x / y = of_int k" by simp
  then have "\<lfloor>x / y\<rfloor> = k" by simp
  with k assms show "py_mod x y = Inr 0" by (simp add: py_mod_def mult.commute)
qed

lemma py_mod_Inr: "y \<noteq> 0 \<Longrightarrow> \<exists>m. py_mod x y = Inr m"
  by (simp add: py_mod_def)

text \<open>
  Where \<open>on_train_begin\<close> has set \<open>total_tracked_steps\<close>, as it does on world process
  zero, \<open>on_step_end\<close> counts the step and sends a progress update exactly when
  \<open>global_step\<close> is a multiple of \<open>logging_steps\<close>: the serialised dictionary of the
  current step, the total tracked steps, the elapsed training time (clock minus training
  start minus accumulated evaluation time), the remaining time (elapsed time divided by the
  steps tracked so far, times the tracked steps still to run), the last rewritten metrics
  and the run URL.
\<close>

lemma RunPodCallback_on_step_end_world_zero:
  assumes "logging_steps args \<noteq> 0"
    and "total_tracked_steps self = Some total_n"
    and "0 \<le> current_tracked_steps self"
  shows "RunPodCallback_on_step_end dumps now args state self =
     Inr (if \<exists>k::int. real_of_int (global_step state) = of_int k * logging_steps args then
            self\<lparr>current_tracked_steps := current_tracked_steps self + 1,
                 logged := logged self @
                   [dumps \<lparr>step = global_step state,
                           total_steps = total_n,
                           time_seconds_elapsed =
                             now - training_start_time self - total_eval_time self,
                           time_seconds_remaining =
                             (now - training_start_time self - total_eval_time self)
                               / real_of_int (current_tracked_steps self + 1)
                               * real_of_int (total_n - (current_tracked_steps self + 1)),
                           content_metrics = metrics self,
                           wandb = wandb_run_url self\<rparr>],
                 progress_updates := progress_updates self @
                   [dumps \<lparr>step = global_step state,
                           total_steps = total_n,
                           time_seconds_elapsed =
                             now - training_start_time self - total_eval_time self,
                           time_seconds_remaining =
                             (now - training_start_time self - total_eval_time self)
                               / real_of_int (current_tracked_steps self + 1)
                               * real_of_int (total_n - (current_tracked_steps self + 1)),
                           content_metrics = metrics self,
                           wandb = wandb_run_url self\<rparr>],
                 last_log_time := now\<rparr>
          else self\<lparr>current_tracked_steps := current_tracked_steps self + 1\<rparr>)"
proof -
  from py_mod_Inr[OF assms(1)] obtain m where
    m: "py_mod (real_of_int (global_step state)) (logging_steps args) = Inr m" by blast
  have z: "(m = 0) = (\<exists>k::int. real_of_int (global_step state) = of_int k * logging_steps args)"
    using py_mod_zero_iff[OF assms(1), of "real_of_int (global_step state)"] m by simp
  have c: "current_tracked_steps self + 1 \<noteq> 0" using assms(3) by simp
  show ?thesis
    unfolding RunPodCallback_on_step_end_def send_update_def Let_def m
    using assms(2) c by (simp add: z)
qed

lemma RunPodCallback_on_step_end_world_zero_run:
  "RunPodCallback_on_step_end json_stub 7 args10
     \<lparr>global_step = 10, max_steps = 100, is_world_process_zero = True\<rparr>
     (RunPodCallback_on_train_begin 1 None None
        \<lparr>global_step = 0, max_steps = 100, is_world_process_zero = True\<rparr>
        (RunPodCallback_init ''job'' False 0 0))
   = Inr \<lparr>last_logged_step = Some 0, wandb_run_url = None, job_id = ''job'',
          total_tracked_steps = Some 100, current_tracked_steps = 1,
          verbose = False, training_start_time = 1, total_eval_time = 0,
          last_log_time = 7, metrics = None, logged = [''step 10''],
          progress_updates = [''step 10'']\<rparr>"
  by (simp add: args10_def json_stub_def RunPodCallback_on_step_end_def py_mod_def
        send_update_def Let_def RunPodCallback_on_train_begin_def RunPodCallback_init_def)

text \<open>
  Claim C7. \<open>on_step_end\<close> is to send a progress update on every step end where
  \<open>global_step\<close> is a multiple of \<open>logging_steps\<close>. It does not on a process that is not
  world process zero: there \<open>on_train_begin\<close> leaves \<open>total_tracked_steps\<close> at \<open>None\<close>
  (only \<open>on_log\<close> and \<open>on_train_begin\<close> look at \<open>is_world_process_zero\<close>, \<open>on_step_end\<close> does
  not), and at step 10 with \<open>logging_steps = 10\<close> the remainder is 0, the subtraction from
  \<open>None\<close> raises TypeError and no update is sent.
\<close>

theorem RunPodCallback_on_step_end_off_world_zero:
  "py_mod (real_of_int (global_step
             \<lparr>global_step = 10, max_steps = 100, is_world_process_zero = False\<rparr>))
          (logging_steps args10) = Inr 0
   \<and> total_tracked_steps
        (RunPodCallback_on_train_begin 1 None None
           \<lparr>global_step = 0, max_steps = 100, is_world_process_zero = False\<rparr>
           (RunPodCallback_init ''job'' False 0 0 :: real RunPodCallback)) = None
   \<and> RunPodCallback_on_step_end json_stub 7 args10
        \<lparr>global_step = 10, max_steps = 100, is_world_process_zero = False\<rparr>
        (RunPodCallback_on_train_begin 1 None None
           \<lparr>global_step = 0, max_steps = 100, is_world_process_zero = False\<rparr>
           (RunPodCallback_init ''job'' False 0 0))
      = Inl TypeError"
  by (simp add: args10_def RunPodCallback_on_step_end_def py_mod_def
        RunPodCallback_on_train_begin_def RunPodCallback_init_def)

subsection \<open>tokenize\_evals and the filter\<close>

lemma py_index_minus2:
  "py_index xs (- 2) = (if 2 \<le> length xs then Inr (xs ! (length xs - 2)) else Inl IndexError)"
proof -
  have "2 \<le> length xs \<Longrightarrow> nat (int (length xs) - 2) = length xs - 2" by linarith
  then show ?thesis by (auto simp: py_index_def Let_def)
qed

lemma filter_bench_eq:
  "filter_bench abcd xs =
     (if \<forall>x \<in> set xs. 2 \<le> length (labels x)
      then Inr (filter (\<lambda>x. labels x ! (length (labels x) - 2) \<in> set abcd) xs)
      else Inl IndexError)"
  by (induction xs) (auto simp: py_index_minus2)

lemma first_input_ids_length:
  "first_input_ids tok cs = Inr ts \<Longrightarrow> length ts = length cs"
  by (induction cs arbitrary: ts) (auto split: sum.splits)

lemma first_input_ids_nth:
  "first_input_ids tok cs = Inr ts \<Longrightarrow> i < length cs \<Longrightarrow>
     tok (cs ! i) None \<noteq> [] \<and> ts ! i = hd (tok (cs ! i) None)"
proof (induction cs arbitrary: ts i)
  case Nil
  then show ?case by simp
next
  case (Cons c cs)
  then show ?case
    by (cases i; cases "tok c None") (auto simp: py_index_def split: sum.splits if_splits)
qed

text \<open>
  Claim C5. For every benchmark example, \<open>tokenize_evals\<close> gives \<open>input_ids\<close> equal to the
  tokenized source (bos token followed by the input, tokenized with truncation at 2048)
  followed by the tokenized target (the output followed by the eos token, tokenized with
  truncation at 2048), and \<open>labels\<close> equal to \<open>-100\<close> repeated for the length of the
  tokenized source, followed by the target token ids. With \<open>abcd_idx\<close> the first token ids
  of the seven letters A to G, the filter keeps exactly the rows whose second-to-last label is
  one of them (and raises IndexError if a row has fewer than two labels).
\<close>

theorem tokenize_evals_and_filter:
  "input_ids (tokenize_evals tok bos_token eos_token ex)
     = tok (bos_token @ input_str ex) (Some 2048) @ tok (output_str ex @ eos_token) (Some 2048)
   \<and> labels (tokenize_evals tok bos_token eos_token ex)
     = replicate (length (tok (bos_token @ input_str ex) (Some 2048))) (- 100)
         @ tok (output_str ex @ eos_token) (Some 2048)
   \<and> (\<forall>abcd. abcd_idx tok = Inr abcd \<longrightarrow>
        length abcd = 7
        \<and> abcd = map (\<lambda>c. hd (tok c None)) [''A'', ''B'', ''C'', ''D'', ''E'', ''F'', ''G'']
        \<and> bench_dataset tok bos_token eos_token ds =
           (if \<forall>x \<in> set (map (tokenize_evals tok bos_token eos_token) ds). 2 \<le> length (labels x)
            then Inr (filter (\<lambda>x. labels x ! (length (labels x) - 2) \<in> set abcd)
                        (map (tokenize_evals tok bos_token eos_token) ds))
            else Inl IndexError))"
proof -
  have a: "input_ids (tokenize_evals tok bos_token eos_token ex)
     = tok (bos_token @ input_str ex) (Some 2048) @ tok (output_str ex @ eos_token) (Some 2048)"
    by (simp add: tokenize_evals_def Let_def)
  have b: "labels (tokenize_evals tok bos_token eos_token ex)
     = replicate (length (tok (bos_token @ input_str ex) (Some 2048))) (- 100)
         @ tok (output_str ex @ eos_token) (Some 2048)"
    by (simp add: tokenize_evals_def Let_def IGNORE_INDEX_def)
  have c: "length abcd = 7
        \<and> abcd = map (\<lambda>c. hd (tok c None)) [''A'', ''B'', ''C'', ''D'', ''E'', ''F'', ''G'']
        \<and> bench_dataset tok bos_token eos_token ds =
           (if \<forall>x \<in> set (map (tokenize_evals tok bos_token eos_token) ds). 2 \<le> length (labels x)
            then Inr (filter (\<lambda>x. labels x ! (length (labels x) - 2) \<in> set abcd)
                        (map (tokenize_evals tok bos_token eos_token) ds))
            else Inl IndexError)" if h: "abcd_idx tok = Inr abcd" for abcd
  proof -
    let ?cs = "[''A'', ''B'', ''C'', ''D'', ''E'', ''F'', ''G'']"
    from h have f: "first_input_ids tok ?cs = Inr abcd" by (simp add: abcd_idx_def)
    have len: "length abcd = 7" using first_input_ids_length[OF f] by simp
    have "abcd = map (\<lambda>c. hd (tok c None)) ?cs"
    proof (rule nth_equalityI)
      show "length abcd = length (map (\<lambda>c. hd (tok c None)) ?cs)" using len by simp
    next
      fix i assume "i < length abcd"
      then have i: "i < length ?cs" using len by simp
      from first_input_ids_nth[OF f i] have "abcd ! i = hd (tok (?cs ! i) None)" by simp
      then show "abcd ! i = map (\<lambda>c. hd (tok c None)) ?cs ! i" using i by (simp only: nth_map)
    qed
    moreover have "bench_dataset tok bos_token eos_token ds =
           (if \<forall>x \<in> set (map (tokenize_evals tok bos_token eos_token) ds). 2 \<le> length (labels x)
            then Inr (filter (\<lambda>x. labels x ! (length (labels x) - 2) \<in> set abcd)
                        (map (tokenize_evals tok bos_token eos_token) ds))
            else Inl IndexError)"
      unfolding bench_dataset_def h by (simp only: sum.case filter_bench_eq)
    ultimately show ?thesis using len by blast
  qed
  from a b c show ?thesis by blast
qed

theorem tokenize_evals_and_filter_witness:
  "abcd_idx char_tokenizer = Inr [65, 66, 67, 68, 69, 70, 71]
   \<and> bench_dataset char_tokenizer ''<'' ''>'' example_rows =
     Inr [\<lparr>input_str = ''Q1'', output_str = ''A'', subject = ''s'',
          name_str = ''n'', input_ids = [60, 81, 49, 65, 62],
          labels = [- 100, - 100, - 100, 65, 62]\<rparr>,
         \<lparr>input_str = ''Q3'', output_str = ''yC'', subject = ''s'',
          name_str = ''n'', input_ids = [60, 81, 51, 121, 67, 62],
          labels = [- 100, - 100, - 100, 121, 67, 62]\<rparr>]"
proof -
  have a: "abcd_idx char_tokenizer = Inr [65, 66, 67, 68, 69, 70, 71]"
    by (simp add: abcd_idx_def char_tokenizer_def py_index_def)
  have t: "map (tokenize_evals char_tokenizer ''<'' ''>'') example_rows =
     [\<lparr>input_str = ''Q1'', output_str = ''A'', subject = ''s'',
          name_str = ''n'', input_ids = [60, 81, 49, 65, 62],
          labels = [- 100, - 100, - 100, 65, 62]\<rparr>,
      \<lparr>input_str = ''Q2'', output_str = ''x'', subject = ''s'',
          name_str = ''n'', input_ids = [60, 81, 50, 120, 62],
          labels = [- 100, - 100, - 100, 120, 62]\<rparr>,
      \<lparr>input_str = ''Q3'', output_str = ''yC'', subject = ''s'',
          name_str = ''n'', input_ids = [60, 81, 51, 121, 67, 62],
          labels = [- 100, - 100, - 100, 121, 67, 62]\<rparr>]"
    by (simp add: example_rows_def tokenize_evals_def char_tokenizer_def IGNORE_INDEX_def Let_def)
  from tokenize_evals_and_filter
         [of char_tokenizer "''<''" "''>''" "hd example_rows" example_rows] a
  have "bench_dataset char_tokenizer ''<'' ''>'' example_rows =
           (if \<forall>x \<in> set (map (tokenize_evals char_tokenizer ''<'' ''>'') example_rows).
                 2 \<le> length (labels x)
            then Inr (filter (\<lambda>x. labels x ! (length (labels x) - 2)
                               \<in> set [65, 66, 67, 68, 69, 70, 71])
                        (map (tokenize_evals char_tokenizer ''<'' ''>'') example_rows))
            else Inl IndexError)"
    by blast
  then show ?thesis unfolding t using a by simp
qed

subsection \<open>BenchEvalCallback: predictions and references of a batch\<close>

lemma err_map_Inr_iff:
  "err_map f xs = Inr ys \<longleftrightarrow>
     length ys = length xs \<and> (\<forall>i<length xs. f (xs ! i) = Inr (ys ! i))"
proof (induction xs arbitrary: ys)
  case Nil
  then show ?case by auto
next
  case (Cons x xs)
  show ?case
  proof (cases ys)
    case Nil
    then show ?thesis by (auto split: sum.splits)
  next
    case (Cons y ys')
    then show ?thesis
      using Cons.IH[of ys'] by (auto split: sum.splits simp: nth_Cons split: nat.splits)
  qed
qed

lemma err_map_total:
  assumes "\<forall>x \<in> set xs. \<exists>y. f x = Inr y"
  shows "\<exists>ys. err_map f xs = Inr ys"
  using assms by (induction xs) (auto split: sum.splits)

lemma py_index_0: "py_index ys 0 = (case ys of [] \<Rightarrow> Inl IndexError | y # _ \<Rightarrow> Inr y)"
  by (cases ys) (auto simp: py_index_def)

lemma py_index_nat: "i < length xs \<Longrightarrow> py_index xs (int i) = Inr (xs ! i)"
  by (simp add: py_index_def)

lemma nonzero_Cons: "nonzero (b # bs) = (if b then [0] else []) @ map Suc (nonzero bs)"
proof -
  have "[0..<Suc (length bs)] = 0 # map Suc [0..<length bs]"
    by (simp add: upt_conv_Cons map_Suc_upt del: upt_Suc)
  then show ?thesis
    by (simp add: nonzero_def filter_map comp_def del: upt_Suc)
qed

lemma first_nonzero:
  "py_index (nonzero (map P row)) 0 =
     (if \<exists>x \<in> set row. P x then Inr (length (takeWhile (\<lambda>x. \<not> P x) row))
      else Inl IndexError)"
proof (induction row)
  case Nil
  then show ?case by (simp add: nonzero_def py_index_def)
next
  case (Cons x row)
  show ?case
  proof (cases "P x")
    case True
    then show ?thesis by (simp add: nonzero_Cons py_index_0)
  next
    case False
    have m: "py_index (map Suc ys) 0 = (case py_index ys 0 of Inl e \<Rightarrow> Inl e | Inr j \<Rightarrow> Inr (Suc j))"
      for ys by (cases ys) (auto simp: py_index_0)
    from False show ?thesis
      using Cons.IH by (simp add: nonzero_Cons m)
  qed
qed

lemma hd_filter_takeWhile:
  "\<exists>x \<in> set row. P x \<Longrightarrow>
     hd (filter P row) = row ! length (takeWhile (\<lambda>x. \<not> P x) row)"
  by (induction row) auto

lemma length_takeWhile_not_less:
  "\<exists>x \<in> set row. P x \<Longrightarrow> length (takeWhile (\<lambda>x. \<not> P x) row) < length row"
  by (induction row) auto

lemma label_non_zero_id_spec:
  assumes "filter (\<lambda>l. l \<noteq> IGNORE_INDEX) row \<noteq> []"
  shows "\<exists>j. label_non_zero_id row = Inr j \<and> j < length row
           \<and> row ! j = hd (filter (\<lambda>l. l \<noteq> IGNORE_INDEX) row)
           \<and> row ! j \<noteq> IGNORE_INDEX
           \<and> (\<forall>k<j. row ! k = IGNORE_INDEX)"
proof -
  let ?P = "\<lambda>l. l \<noteq> IGNORE_INDEX"
  let ?j = "length (takeWhile (\<lambda>x. \<not> ?P x) row)"
  from assms have ex: "\<exists>x \<in> set row. ?P x"
    by (auto simp: filter_empty_conv)
  then have 1: "label_non_zero_id row = Inr ?j"
    unfolding label_non_zero_id_def using first_nonzero[of ?P row] by simp
  from ex have 2: "?j < length row"
    by (rule length_takeWhile_not_less)
  have 3: "row ! ?j = hd (filter ?P row)" using hd_filter_takeWhile[OF ex] by simp
  have 4: "?P (row ! ?j)" using nth_length_takeWhile[OF 2] by simp
  have 5: "\<forall>k<?j. row ! k = IGNORE_INDEX"
  proof (intro allI impI)
    fix k assume k: "k < ?j"
    then have "takeWhile (\<lambda>x. \<not> ?P x) row ! k = row ! k" by (rule takeWhile_nth)
    moreover from k have "takeWhile (\<lambda>x. \<not> ?P x) row ! k \<in> set (takeWhile (\<lambda>x. \<not> ?P x) row)"
      by simp
    then have "\<not> ?P (takeWhile (\<lambda>x. \<not> ?P x) row ! k)" by (rule set_takeWhileD[THEN conjunct2])
    ultimately show "row ! k = IGNORE_INDEX" by simp
  qed
  from 1 2 3 4 5 show ?thesis by blast
qed

lemma pairs_first_concat:
  "\<forall>row \<in> set rows. length (filter P row) = 2 \<Longrightarrow>
     pairs_first (concat (map (filter P) rows)) = Inr (map (\<lambda>row. hd (filter P row)) rows)"
proof (induction rows)
  case Nil
  then show ?case by simp
next
  case (Cons row rows)
  then have "length (filter P row) = 2" by simp
  then obtain a b where ab: "filter P row = [a, b]"
    by (auto simp: length_Suc_conv numeral_2_eq_2)
  with Cons show ?case by simp
qed

lemma pairs_first_rows:
  assumes "\<forall>row \<in> set rows. length (filter P row) = 2"
  shows "pairs_first (filter P (concat rows)) = Inr (map (\<lambda>row. hd (filter P row)) rows)"
  using pairs_first_concat[OF assms] by (simp add: filter_concat)

lemma argmax_from_spec:
  assumes "best < length pre" and "pre ! best = bv"
    and "\<forall>k<length pre. pre ! k \<le> bv" and "\<forall>k<best. pre ! k < bv"
  shows "argmax_from best bv (length pre) xs < length (pre @ xs)
       \<and> (\<forall>k<length (pre @ xs). (pre @ xs) ! k \<le> (pre @ xs) ! argmax_from best bv (length pre) xs)
       \<and> (\<forall>k<argmax_from best bv (length pre) xs.
             (pre @ xs) ! k < (pre @ xs) ! argmax_from best bv (length pre) xs)"
  using assms
proof (induction xs arbitrary: best bv pre)
  case Nil
  then show ?case by simp
next
  case (Cons x xs)
  show ?case
  proof (cases "bv < x")
    case True
    have a: "length pre < length (pre @ [x])" by simp
    have b: "(pre @ [x]) ! length pre = x" by simp
    have c: "\<forall>k<length (pre @ [x]). (pre @ [x]) ! k \<le> x"
      using Cons.prems(3) True by (auto simp: nth_append less_Suc_eq)
    have d: "\<forall>k<length pre. (pre @ [x]) ! k < x"
      using Cons.prems(3) True by (auto simp: nth_append)
    from Cons.IH[OF a b c d] True show ?thesis by simp
  next
    case False
    have a: "best < length (pre @ [x])" using Cons.prems(1) by simp
    have b: "(pre @ [x]) ! best = bv" using Cons.prems(1,2) by (simp add: nth_append)
    have c: "\<forall>k<length (pre @ [x]). (pre @ [x]) ! k \<le> bv"
      using Cons.prems(3) False by (auto simp: nth_append less_Suc_eq)
    have d: "\<forall>k<best. (pre @ [x]) ! k < bv"
      using Cons.prems(1,4) by (auto simp: nth_append)
    from Cons.IH[OF a b c d] False show ?thesis by simp
  qed
qed

lemma argmax_spec:
  assumes "xs \<noteq> []"
  shows "\<exists>p. argmax xs = Inr p \<and> p < length xs
           \<and> (\<forall>k<length xs. xs ! k \<le> xs ! p) \<and> (\<forall>k<p. xs ! k < xs ! p)"
proof -
  from assms obtain x rest where xs: "xs = x # rest" by (cases xs) auto
  have "argmax_from 0 x (length [x]) rest < length ([x] @ rest)
       \<and> (\<forall>k<length ([x] @ rest). ([x] @ rest) ! k \<le> ([x] @ rest) ! argmax_from 0 x (length [x]) rest)
       \<and> (\<forall>k<argmax_from 0 x (length [x]) rest.
             ([x] @ rest) ! k < ([x] @ rest) ! argmax_from 0 x (length [x]) rest)"
    by (rule argmax_from_spec) auto
  then show ?thesis unfolding xs argmax_def by simp
qed

lemma err_map_py_index:
  assumes "\<forall>a \<in> set abcd. 0 \<le> a \<and> a < int (length scores)"
  shows "err_map (py_index scores) abcd = Inr (map (\<lambda>a. scores ! nat a) abcd)"
  using assms by (induction abcd) (auto simp: py_index_def)

lemma list_index_spec:
  "y \<in> set xs \<Longrightarrow> list_index xs y < length xs \<and> xs ! list_index xs y = y
     \<and> (\<forall>k<list_index xs y. xs ! k \<noteq> y)"
proof (induction xs)
  case Nil
  then show ?case by simp
next
  case (Cons x xs)
  show ?case
  proof (cases "x = y")
    case True
    then show ?thesis by simp
  next
    case False
    with Cons have ih: "list_index xs y < length xs \<and> xs ! list_index xs y = y
       \<and> (\<forall>k<list_index xs y. xs ! k \<noteq> y)" by simp
    with False show ?thesis by (auto simp: nth_Cons split: nat.splits)
  qed
qed

lemma predict_one_spec:
  assumes i: "i < length batch_labels"
    and positions: "length logit = length (batch_labels ! i)"
    and vocab: "\<forall>scores \<in> set logit. \<forall>a \<in> set abcd. 0 \<le> a \<and> a < int (length scores)"
    and options: "abcd \<noteq> []"
    and two: "length (filter (\<lambda>l. l \<noteq> IGNORE_INDEX) (batch_labels ! i)) = 2"
    and source: "batch_labels ! i \<noteq> [] \<and> hd (batch_labels ! i) = IGNORE_INDEX"
  shows "\<exists>j p. label_non_zero_id (batch_labels ! i) = Inr j \<and> 0 < j
           \<and> j < length (batch_labels ! i)
           \<and> (\<forall>k<j. batch_labels ! i ! k = IGNORE_INDEX)
           \<and> batch_labels ! i ! j = hd (filter (\<lambda>l. l \<noteq> IGNORE_INDEX) (batch_labels ! i))
           \<and> batch_labels ! i ! j \<noteq> IGNORE_INDEX
           \<and> predict_one abcd batch_labels (i, logit) = Inr (int p)
           \<and> p < length abcd
           \<and> (\<forall>k<length abcd. logit ! (j - 1) ! nat (abcd ! k) \<le> logit ! (j - 1) ! nat (abcd ! p))
           \<and> (\<forall>k<p. logit ! (j - 1) ! nat (abcd ! k) < logit ! (j - 1) ! nat (abcd ! p))"
proof -
  let ?row = "batch_labels ! i"
  from two have ne: "filter (\<lambda>l. l \<noteq> IGNORE_INDEX) ?row \<noteq> []" by auto
  from label_non_zero_id_spec[OF ne] obtain j where
    j1: "label_non_zero_id ?row = Inr j" and j2: "j < length ?row"
    and j3: "?row ! j = hd (filter (\<lambda>l. l \<noteq> IGNORE_INDEX) ?row)"
    and j4: "?row ! j \<noteq> IGNORE_INDEX" and j5: "\<forall>k<j. ?row ! k = IGNORE_INDEX"
    by blast
  have j0: "0 < j"
  proof (rule ccontr)
    assume "\<not> 0 < j"
    then have jz: "j = 0" by simp
    from source have "batch_labels ! i ! 0 = IGNORE_INDEX"
      by (metis hd_conv_nth)
    with j4 jz show False by simp
  qed
  let ?scores = "logit ! (j - 1)"
  have jl: "j - 1 < length logit" using j2 positions by simp
  have eq: "int j - 1 = int (j - 1)" using j0 by linarith
  have s: "py_index logit (int j - 1) = Inr ?scores"
    unfolding eq by (rule py_index_nat[OF jl])
  have "?scores \<in> set logit" using jl by simp
  with vocab have v: "\<forall>a \<in> set abcd. 0 \<le> a \<and> a < int (length ?scores)" by blast
  let ?la = "map (\<lambda>a. ?scores ! nat a) abcd"
  have e: "err_map (py_index ?scores) abcd = Inr ?la" by (rule err_map_py_index[OF v])
  have "?la \<noteq> []" using options by simp
  from argmax_spec[OF this] obtain p where
    p1: "argmax ?la = Inr p" and p2: "p < length ?la"
    and p3: "\<forall>k<length ?la. ?la ! k \<le> ?la ! p" and p4: "\<forall>k<p. ?la ! k < ?la ! p"
    by blast
  have r: "py_index batch_labels (int i) = Inr ?row" by (rule py_index_nat[OF i])
  have po: "predict_one abcd batch_labels (i, logit) = Inr (int p)"
    unfolding predict_one_def by (simp only: prod.case r j1 s e p1 sum.case)
  from p2 have p2': "p < length abcd" by simp
  from p3 p2' have p3': "\<forall>k<length abcd. ?scores ! nat (abcd ! k) \<le> ?scores ! nat (abcd ! p)"
    by simp
  from p4 p2' have p4': "\<forall>k<p. ?scores ! nat (abcd ! k) < ?scores ! nat (abcd ! p)"
    by simp
  from j1 j0 j2 j5 j3 j4 po p2' p3' p4' show ?thesis by blast
qed

lemma bench_loop_loss:
  "bench_loop abcd batches (preds, refs, loss_bench) = Inr (preds', refs', loss_bench') \<Longrightarrow>
     loss_bench' = loss_bench + sum_list (map (\<lambda>b. fst (snd b)) batches)"
proof (induction batches arbitrary: preds refs loss_bench)
  case Nil
  then show ?case by simp
next
  case (Cons b bs)
  obtain bl loss logits sl where b: "b = (bl, loss, logits, sl)" by (cases b) auto
  from Cons.prems obtain p1 r1 l1 where
    s: "bench_batch abcd bl (loss, logits, sl) (preds, refs, loss_bench) = Inr (p1, r1, l1)"
    and rest: "bench_loop abcd bs (p1, r1, l1) = Inr (preds', refs', loss_bench')"
    by (auto simp: b split: sum.splits)
  from s have "l1 = loss_bench + loss"
    by (auto simp: bench_batch_def split: sum.splits)
  with Cons.IH[OF rest] show ?case by (simp add: b)
qed

lemma toy_scores: "err_map (py_index zero_scores) toy_abcd = Inr [0, 0, 0, 0, 0, 0, 0]"
  by (simp add: toy_abcd_def zero_scores_def py_index_def)

lemma toy_argmax: "argmax [0, 0, 0, 0, 0, 0, 0] = Inr 0"
  by (simp add: argmax_def)

lemma toy_first_label:
  "label_non_zero_id [- 100, 1, 3, 2] = Inr 1"
  "label_non_zero_id [- 100, 1, 4, 2] = Inr 1"
  unfolding label_non_zero_id_def first_nonzero by (simp_all add: IGNORE_INDEX_def)

lemma toy_predict:
  "predict_one toy_abcd [[- 100, 1, 3, 2], [- 100, 1, 4, 2]] (0, flat_logit) = Inr 0"
  "predict_one toy_abcd [[- 100, 1, 3, 2], [- 100, 1, 4, 2]] (Suc 0, flat_logit) = Inr 0"
proof -
  have a: "py_index [[- 100, 1, 3, 2], [- 100, 1, 4, 2 :: int]] (int 0) = Inr [- 100, 1, 3, 2]"
    by (simp add: py_index_def)
  have b: "py_index [[- 100, 1, 3, 2], [- 100, 1, 4, 2 :: int]] (int (Suc 0)) = Inr [- 100, 1, 4, 2]"
    by (simp add: py_index_def)
  have c: "py_index flat_logit (int 1 - 1) = Inr zero_scores"
    by (simp add: py_index_def flat_logit_def)
  show "predict_one toy_abcd [[- 100, 1, 3, 2], [- 100, 1, 4, 2]] (0, flat_logit) = Inr 0"
    unfolding predict_one_def by (simp only: prod.case a sum.case toy_first_label c toy_scores toy_argmax) simp
  show "predict_one toy_abcd [[- 100, 1, 3, 2], [- 100, 1, 4, 2]] (Suc 0, flat_logit) = Inr 0"
    unfolding predict_one_def by (simp only: prod.case b sum.case toy_first_label c toy_scores toy_argmax) simp
qed

lemma peak_scores:
  "err_map (py_index peak3) toy_abcd = Inr [1, 0, 0, 0, 0, 0, 0]"
  "err_map (py_index peak5) toy_abcd = Inr [0, 0, 1, 0, 0, 0, 0]"
  by (simp_all add: toy_abcd_def peak3_def peak5_def py_index_def)

lemma peak_argmax:
  "argmax [1, 0, 0, 0, 0, 0, 0] = Inr 0"
  "argmax [0, 0, 1, 0, 0, 0, 0] = Inr 2"
  by (simp_all add: argmax_def)

lemma peak_first_label:
  "label_non_zero_id [- 100, 3, 2] = Inr 1"
  "label_non_zero_id [- 100, 5, 2] = Inr 1"
  unfolding label_non_zero_id_def first_nonzero by (simp_all add: IGNORE_INDEX_def)

lemma peak_predict:
  "predict_one toy_abcd [[- 100, 3, 2], [- 100, 5, 2]]
     (0, [peak3, zero_scores, zero_scores]) = Inr 0"
  "predict_one toy_abcd [[- 100, 3, 2], [- 100, 5, 2]]
     (Suc 0, [peak5, zero_scores, zero_scores]) = Inr 2"
proof -
  have a: "py_index [[- 100, 3, 2], [- 100, 5, 2 :: int]] (int 0) = Inr [- 100, 3, 2]"
    by (simp add: py_index_def)
  have b: "py_index [[- 100, 3, 2], [- 100, 5, 2 :: int]] (int (Suc 0)) = Inr [- 100, 5, 2]"
    by (simp add: py_index_def)
  have c: "py_index [peak3, zero_scores, zero_scores] (int 1 - 1) = Inr peak3"
    by (simp add: py_index_def)
  have d: "py_index [peak5, zero_scores, zero_scores] (int 1 - 1) = Inr peak5"
    by (simp add: py_index_def)
  show "predict_one toy_abcd [[- 100, 3, 2], [- 100, 5, 2]]
     (0, [peak3, zero_scores, zero_scores]) = Inr 0"
    unfolding predict_one_def
    by (simp only: prod.case a sum.case peak_first_label c peak_scores peak_argmax) simp
  show "predict_one toy_abcd [[- 100, 3, 2], [- 100, 5, 2]]
     (Suc 0, [peak5, zero_scores, zero_scores]) = Inr 2"
    unfolding predict_one_def
    by (simp only: prod.case b sum.case peak_first_label d peak_scores peak_argmax) simp
qed

lemma peak_batch_run:
  "bench_batch toy_abcd [[- 100, 3, 2], [- 100, 5, 2]]
     (1 / 2, [[peak3, zero_scores, zero_scores], [peak5, zero_scores, zero_scores]],
      [[- 100, 3, 2], [- 100, 5, 2]])
     ([], [], 0)
   = Inr ([0, 2], [0, 2], 1 / 2)"
proof -
  let ?G = "[[peak3, zero_scores, zero_scores], [peak5, zero_scores, zero_scores]]"
  have z: "zip [0..<length ?G] ?G
           = [(0, [peak3, zero_scores, zero_scores]), (Suc 0, [peak5, zero_scores, zero_scores])]"
    by (simp add: upt_rec)
  have p: "err_map (predict_one toy_abcd [[- 100, 3, 2], [- 100, 5, 2]])
             [(0, [peak3, zero_scores, zero_scores]), (Suc 0, [peak5, zero_scores, zero_scores])]
           = Inr [0, 2]"
    by (simp add: peak_predict)
  have r: "pairs_first (filter (\<lambda>l. l \<noteq> IGNORE_INDEX)
             (concat [[- 100, 3, 2], [- 100, 5, 2]])) = Inr [3, 5]"
    by (simp add: IGNORE_INDEX_def)
  have f: "map (ref_of toy_abcd) [3, 5] = [0, 2]"
    by (simp add: ref_of_def toy_abcd_def)
  show ?thesis
    unfolding bench_batch_def by (simp only: prod.case z p r f sum.case) simp
qed

text \<open>
  Two examples whose target has three tokens (a token in front of the answer, the answer,
  eos) pass the filter on the second-to-last label, and the batch gives two predictions
  but three references: the second reference comes from the eos token of the first
  example, and no reference is the answer of its example.
\<close>

theorem bench_batch_counterexample:
  "bench_batch toy_abcd
         [[- 100, 1, 3, 2], [- 100, 1, 4, 2]]
         (1 / 2, [flat_logit, flat_logit], [[- 100, 1, 3, 2], [- 100, 1, 4, 2]])
         ([], [], 0)
     = Inr ([0, 0], [- 1, - 1, 1], 1 / 2)"
proof -
  have z: "zip [0..<length [flat_logit, flat_logit]] [flat_logit, flat_logit]
           = [(0, flat_logit), (Suc 0, flat_logit)]"
    by (simp add: upt_rec)
  have p: "err_map (predict_one toy_abcd [[- 100, 1, 3, 2], [- 100, 1, 4, 2]])
             [(0, flat_logit), (Suc 0, flat_logit)] = Inr [0, 0]"
    by (simp add: toy_predict)
  have r: "pairs_first (filter (\<lambda>l. l \<noteq> IGNORE_INDEX)
             (concat [[- 100, 1, 3, 2], [- 100, 1, 4, 2]])) = Inr [1, 2, 4]"
    by (simp add: IGNORE_INDEX_def)
  have f: "map (ref_of toy_abcd) [1, 2, 4] = [- 1, - 1, 1]"
    by (simp add: ref_of_def toy_abcd_def)
  show ?thesis
    unfolding bench_batch_def by (simp only: prod.case z p r f sum.case) simp
qed

text \<open>
  Claim C4 (amended). Take a batch as the trainer hands it over: the labels are a tensor
  of shape (B, T), the logits a tensor of shape (B, T, V) with the seven option token ids
  below V, and the labels returned by the prediction step are the labels of the batch. If
  every example has exactly two labels that are not IGNORE_INDEX (the answer and the eos
  token, as the comment in the source says), the first of them not at position 0, then the
  batch appends one prediction and one reference per example, in order: the prediction of
  example \<open>i\<close> is the argmax (the first index of a maximal score) over the logits of the
  seven option tokens at the position exactly one before the first label position that is
  not IGNORE_INDEX, and the reference of example \<open>i\<close> is the index of that first label in
  the option-token list, or -1 when it is not one of the seven option tokens. So the
  \<open>i\<close>-th prediction and the \<open>i\<close>-th reference refer to the same answer position of
  example \<open>i\<close>.
\<close>

theorem bench_batch_aligned:
  assumes rows: "length logits = length batch_labels"
    and positions: "\<forall>i<length batch_labels. length (logits ! i) = length (batch_labels ! i)"
    and vocab: "\<forall>logit \<in> set logits. \<forall>scores \<in> set logit. \<forall>a \<in> set abcd.
                  0 \<le> a \<and> a < int (length scores)"
    and seven: "length abcd = 7"
    and two: "\<forall>row \<in> set batch_labels. length (filter (\<lambda>l. l \<noteq> IGNORE_INDEX) row) = 2"
    and source: "\<forall>row \<in> set batch_labels. row \<noteq> [] \<and> hd row = IGNORE_INDEX"
  shows "\<exists>new_preds new_refs.
      bench_batch abcd batch_labels (loss, logits, batch_labels) (preds, refs, loss_bench)
        = Inr (preds @ new_preds, refs @ new_refs, loss_bench + loss)
    \<and> length new_preds = length batch_labels \<and> length new_refs = length batch_labels
    \<and> (\<forall>i<length batch_labels. \<exists>j p.
          label_non_zero_id (batch_labels ! i) = Inr j \<and> 0 < j \<and> j < length (batch_labels ! i)
        \<and> (\<forall>k<j. batch_labels ! i ! k = IGNORE_INDEX)
        \<and> batch_labels ! i ! j \<noteq> IGNORE_INDEX
        \<and> new_preds ! i = int p \<and> p < length abcd
        \<and> (\<forall>k<length abcd. logits ! i ! (j - 1) ! nat (abcd ! k)
                                \<le> logits ! i ! (j - 1) ! nat (abcd ! p))
        \<and> (\<forall>k<p. logits ! i ! (j - 1) ! nat (abcd ! k) < logits ! i ! (j - 1) ! nat (abcd ! p))
        \<and> new_refs ! i = (if batch_labels ! i ! j \<in> set abcd
                           then int (list_index abcd (batch_labels ! i ! j)) else - 1))"
proof -
  let ?B = "length batch_labels"
  let ?xs = "zip [0..<length logits] logits"
  let ?P = "\<lambda>l. l \<noteq> IGNORE_INDEX"
  have one: "\<exists>j p. label_non_zero_id (batch_labels ! i) = Inr j \<and> 0 < j
           \<and> j < length (batch_labels ! i)
           \<and> (\<forall>k<j. batch_labels ! i ! k = IGNORE_INDEX)
           \<and> batch_labels ! i ! j = hd (filter ?P (batch_labels ! i))
           \<and> batch_labels ! i ! j \<noteq> IGNORE_INDEX
           \<and> predict_one abcd batch_labels (i, logits ! i) = Inr (int p)
           \<and> p < length abcd
           \<and> (\<forall>k<length abcd. logits ! i ! (j - 1) ! nat (abcd ! k)
                                   \<le> logits ! i ! (j - 1) ! nat (abcd ! p))
           \<and> (\<forall>k<p. logits ! i ! (j - 1) ! nat (abcd ! k) < logits ! i ! (j - 1) ! nat (abcd ! p))"
    if i: "i < ?B" for i
  proof (rule predict_one_spec[OF i])
    show "length (logits ! i) = length (batch_labels ! i)" using positions i by simp
    have "logits ! i \<in> set logits" using i rows by simp
    with vocab show "\<forall>scores \<in> set (logits ! i). \<forall>a \<in> set abcd. 0 \<le> a \<and> a < int (length scores)"
      by blast
    show "abcd \<noteq> []" using seven by auto
    have m: "batch_labels ! i \<in> set batch_labels" using i by simp
    with two show "length (filter ?P (batch_labels ! i)) = 2" by blast
    from m source show "batch_labels ! i \<noteq> [] \<and> hd (batch_labels ! i) = IGNORE_INDEX" by blast
  qed
  have lx: "length ?xs = ?B" using rows by simp
  have nx: "?xs ! i = (i, logits ! i)" if "i < ?B" for i using that rows by simp
  have "\<forall>x \<in> set ?xs. \<exists>y. predict_one abcd batch_labels x = Inr y"
  proof
    fix x assume "x \<in> set ?xs"
    then obtain i where "i < length ?xs" and "?xs ! i = x" by (auto simp: in_set_conv_nth)
    with lx nx have "i < ?B" and "x = (i, logits ! i)" by auto
    with one[of i] show "\<exists>y. predict_one abcd batch_labels x = Inr y" by blast
  qed
  from err_map_total[OF this] obtain new_preds where
    np: "err_map (predict_one abcd batch_labels) ?xs = Inr new_preds" by blast
  from np[unfolded err_map_Inr_iff] lx nx have
    npl: "length new_preds = ?B"
    and npi: "\<forall>i<?B. predict_one abcd batch_labels (i, logits ! i) = Inr (new_preds ! i)"
    by auto
  let ?firsts = "map (\<lambda>row. hd (filter ?P row)) batch_labels"
  have vf: "pairs_first (filter ?P (concat batch_labels)) = Inr ?firsts"
    by (rule pairs_first_rows[OF two])
  let ?new_refs = "map (ref_of abcd) ?firsts"
  have run: "bench_batch abcd batch_labels (loss, logits, batch_labels) (preds, refs, loss_bench)
        = Inr (preds @ new_preds, refs @ ?new_refs, loss_bench + loss)"
    unfolding bench_batch_def by (simp add: np vf)
  have each: "\<exists>j p.
          label_non_zero_id (batch_labels ! i) = Inr j \<and> 0 < j \<and> j < length (batch_labels ! i)
        \<and> (\<forall>k<j. batch_labels ! i ! k = IGNORE_INDEX)
        \<and> batch_labels ! i ! j \<noteq> IGNORE_INDEX
        \<and> new_preds ! i = int p \<and> p < length abcd
        \<and> (\<forall>k<length abcd. logits ! i ! (j - 1) ! nat (abcd ! k)
                                \<le> logits ! i ! (j - 1) ! nat (abcd ! p))
        \<and> (\<forall>k<p. logits ! i ! (j - 1) ! nat (abcd ! k) < logits ! i ! (j - 1) ! nat (abcd ! p))
        \<and> ?new_refs ! i = (if batch_labels ! i ! j \<in> set abcd
                           then int (list_index abcd (batch_labels ! i ! j)) else - 1)"
    if i: "i < ?B" for i
  proof -
    from one[OF i] obtain j p where
      a: "label_non_zero_id (batch_labels ! i) = Inr j" "0 < j" "j < length (batch_labels ! i)"
         "\<forall>k<j. batch_labels ! i ! k = IGNORE_INDEX"
         "batch_labels ! i ! j \<noteq> IGNORE_INDEX"
      and h: "batch_labels ! i ! j = hd (filter ?P (batch_labels ! i))"
      and po: "predict_one abcd batch_labels (i, logits ! i) = Inr (int p)"
      and b: "p < length abcd"
         "\<forall>k<length abcd. logits ! i ! (j - 1) ! nat (abcd ! k)
                                   \<le> logits ! i ! (j - 1) ! nat (abcd ! p)"
         "\<forall>k<p. logits ! i ! (j - 1) ! nat (abcd ! k) < logits ! i ! (j - 1) ! nat (abcd ! p)"
      by blast
    from npi i po have c: "new_preds ! i = int p" by simp
    have d: "?new_refs ! i = (if batch_labels ! i ! j \<in> set abcd
                           then int (list_index abcd (batch_labels ! i ! j)) else - 1)"
      using i h by (simp add: ref_of_def)
    from a b c d show ?thesis by blast
  qed
  from run npl each show ?thesis
    by (intro exI[of _ new_preds] exI[of _ ?new_refs]) simp
qed

theorem bench_batch_aligned_witness:
  "bench_batch toy_abcd [[- 100, 3, 2], [- 100, 5, 2]]
     (1 / 2, [[peak3, zero_scores, zero_scores], [peak5, zero_scores, zero_scores]],
      [[- 100, 3, 2], [- 100, 5, 2]])
     ([], [], 0)
   = Inr ([0, 2], [0, 2], 1 / 2)"
proof -
  let ?L = "[[- 100, 3, 2], [- 100, 5, 2 :: int]]"
  let ?G = "[[peak3, zero_scores, zero_scores], [peak5, zero_scores, zero_scores]]"
  have h3: "length ?G = length ?L" by simp
  have h4: "\<forall>i<length ?L. length (?G ! i) = length (?L ! i)"
    by (simp add: less_Suc_eq nth_Cons')
  have h5: "\<forall>logit \<in> set ?G. \<forall>scores \<in> set logit. \<forall>a \<in> set toy_abcd.
              0 \<le> a \<and> a < int (length scores)"
    by (simp add: toy_abcd_def peak3_def peak5_def zero_scores_def)
  have h6: "length toy_abcd = 7" by (simp add: toy_abcd_def)
  have h7: "\<forall>row \<in> set ?L. length (filter (\<lambda>l. l \<noteq> IGNORE_INDEX) row) = 2"
    by (simp add: IGNORE_INDEX_def)
  have h8: "\<forall>row \<in> set ?L. row \<noteq> [] \<and> hd row = IGNORE_INDEX"
    by (simp add: IGNORE_INDEX_def)
  from bench_batch_aligned[OF h3 h4 h5 h6 h7 h8, of "1 / 2" "[]" "[]" 0]
  obtain new_preds new_refs where
    run: "bench_batch toy_abcd ?L (1 / 2, ?G, ?L) ([], [], 0)
       = Inr ([] @ new_preds, [] @ new_refs, 0 + 1 / 2)"
    by blast
  from run[unfolded peak_batch_run] have np: "new_preds = [0, 2]" and nr: "new_refs = [0, 2]"
    by auto
  from run show ?thesis unfolding np nr by simp
qed

subsection \<open>BenchEvalCallback: aggregation over the ranks\<close>

lemma result_keys:
  "loss_key = ''eval_bench_loss''"
  "accuracy_key n = ''eval_bench_accuracy_'' @ n"
  "average_accuracy_key = ''eval_bench_average_accuracy''"
  "total_accuracy_key = ''eval_bench_total_accuracy''"
  by (simp_all add: loss_key_def accuracy_key_def average_accuracy_key_def
        total_accuracy_key_def bench_split_def)

lemma accuracy_key_neq:
  "accuracy_key n \<noteq> loss_key"
  "accuracy_key n \<noteq> average_accuracy_key"
  "accuracy_key n \<noteq> total_accuracy_key"
  "average_accuracy_key \<noteq> loss_key"
  "total_accuracy_key \<noteq> loss_key"
  "total_accuracy_key \<noteq> average_accuracy_key"
  by (simp_all add: result_keys)

lemma accuracy_key_inj: "accuracy_key n = accuracy_key m \<longleftrightarrow> n = m"
  by (simp add: result_keys)

lemma fold_fold_concat: "fold (fold f) xss s = fold f (concat xss) s"
  by (induction xss arbitrary: s) simp_all

lemma fold_score_entry:
  assumes "distinct (map fst combined)"
    and "\<forall>n \<in> fst ` set combined. accuracy_key n \<notin> fst ` set results"
  shows "fold (score_entry accuracy) combined (results, bench_scores, bench_refs, bench_preds) =
     (results @ map (\<lambda>nd. (accuracy_key (fst nd),
                            Num (nan_to_zero (accuracy (fst (snd nd)) (snd (snd nd)))))) combined,
      bench_scores @ map (\<lambda>nd. nan_to_zero (accuracy (fst (snd nd)) (snd (snd nd)))) combined,
      bench_refs @ concat (map (\<lambda>nd. fst (snd nd)) combined),
      bench_preds @ concat (map (\<lambda>nd. snd (snd nd)) combined))"
  using assms
proof (induction combined arbitrary: results bench_scores bench_refs bench_preds)
  case Nil
  then show ?case by simp
next
  case (Cons nd combined)
  obtain n d where nd: "nd = (n, d)" by (cases nd)
  let ?key = "accuracy_key n"
  let ?v = "Num (nan_to_zero (accuracy (fst d) (snd d)))"
  from Cons.prems(2) nd have fresh: "?key \<notin> fst ` set results" by simp
  have step: "score_entry accuracy nd (results, bench_scores, bench_refs, bench_preds) =
      (results @ [(?key, ?v)], bench_scores @ [nan_to_zero (accuracy (fst d) (snd d))],
       bench_refs @ fst d, bench_preds @ snd d)"
    unfolding score_entry_def nd
    by (cases "accuracy (fst d) (snd d)") (simp_all add: update_fresh[OF fresh])
  from Cons.prems(1) nd have dist: "distinct (map fst combined)" and nn: "n \<notin> fst ` set combined"
    by auto
  have fr: "\<forall>m \<in> fst ` set combined.
              accuracy_key m \<notin> fst ` set (results @ [(?key, ?v)])"
  proof
    fix m assume m: "m \<in> fst ` set combined"
    with nn have "m \<noteq> n" by auto
    moreover from Cons.prems(2) m
    have "accuracy_key m \<notin> fst ` set results" by auto
    ultimately show "accuracy_key m \<notin> fst ` set (results @ [(?key, ?v)])"
      by (simp add: accuracy_key_inj)
  qed
  have "fold (score_entry accuracy) (nd # combined) (results, bench_scores, bench_refs, bench_preds)
      = fold (score_entry accuracy) combined
          (results @ [(?key, ?v)], bench_scores @ [nan_to_zero (accuracy (fst d) (snd d))],
           bench_refs @ fst d, bench_preds @ snd d)"
    by (simp add: step)
  also note Cons.IH[OF dist fr]
  finally show ?case by (simp add: nd)
qed

lemma distinct_combine_entry:
  "distinct (map fst combined) \<Longrightarrow> distinct (map fst (combine_entry nd combined))"
  unfolding combine_entry_def
  by (cases nd) (simp add: Let_def AList.distinct_map_entry AList.distinct_update)

lemma distinct_fold_combine_entry:
  "distinct (map fst combined) \<Longrightarrow> distinct (map fst (fold combine_entry bn combined))"
  by (induction bn arbitrary: combined) (simp_all add: distinct_combine_entry)

lemma combine_bench_names_concat:
  "combine_bench_names gathered = fold combine_entry (concat gathered) []"
  unfolding combine_bench_names_def by (simp add: fold_fold_concat)

lemma distinct_combine_bench_names: "distinct (map fst (combine_bench_names gathered))"
  unfolding combine_bench_names_concat by (rule distinct_fold_combine_entry) simp

lemma map_of_combine_entry:
  "map_of (combine_entry (n, d) combined) =
     (map_of combined)(n \<mapsto> (case map_of combined n of None \<Rightarrow> d
                               | Some e \<Rightarrow> (fst e @ fst d, snd e @ snd d)))"
  unfolding combine_entry_def
  by (auto simp: Let_def AList.map_of_map_entry AList.update_conv' fun_eq_iff split: option.splits)

text \<open>
  After the merge a name is bound to all references, and all predictions, recorded under it
  in the gathered dictionaries, in rank order.
\<close>

lemma filter_absent: "n \<notin> fst ` set bn \<Longrightarrow> filter (\<lambda>nd. fst nd = n) bn = []"
  by (auto simp: filter_empty_conv)

lemma map_of_fold_combine_entry:
  "map_of (fold combine_entry bn combined) n =
     (if n \<in> fst ` set bn then
        Some (case map_of combined n of
                None \<Rightarrow> (concat (map (\<lambda>nd. fst (snd nd)) (filter (\<lambda>nd. fst nd = n) bn)),
                          concat (map (\<lambda>nd. snd (snd nd)) (filter (\<lambda>nd. fst nd = n) bn)))
              | Some e \<Rightarrow> (fst e @ concat (map (\<lambda>nd. fst (snd nd)) (filter (\<lambda>nd. fst nd = n) bn)),
                           snd e @ concat (map (\<lambda>nd. snd (snd nd)) (filter (\<lambda>nd. fst nd = n) bn))))
      else map_of combined n)"
proof (induction bn arbitrary: combined)
  case Nil
  then show ?case by simp
next
  case (Cons nd bn)
  obtain m d where nd: "nd = (m, d)" by (cases nd)
  show ?case
    unfolding nd fold_simps Cons.IH map_of_combine_entry
    by (auto simp: filter_absent split: option.splits)
qed

lemma map_of_combine_bench_names:
  "map_of (combine_bench_names gathered) n =
     (if n \<in> fst ` set (concat gathered) then
        Some (concat (map (\<lambda>nd. fst (snd nd)) (filter (\<lambda>nd. fst nd = n) (concat gathered))),
              concat (map (\<lambda>nd. snd (snd nd)) (filter (\<lambda>nd. fst nd = n) (concat gathered))))
      else None)"
  unfolding combine_bench_names_concat map_of_fold_combine_entry by simp

lemma compute_results_eq:
  "compute_results accuracy loss_bench_ranks len_data_loader_ranks gathered =
     (if sum_list len_data_loader_ranks = 0 then Inl ZeroDivisionError
      else Inr ((loss_key,
                 Num (sum_list loss_bench_ranks / real (sum_list len_data_loader_ranks)))
                # map (\<lambda>nd. (accuracy_key (fst nd),
                               Num (nan_to_zero (accuracy (fst (snd nd)) (snd (snd nd))))))
                    (combine_bench_names gathered)
                @ [(average_accuracy_key,
                    np_mean (map (\<lambda>nd. nan_to_zero (accuracy (fst (snd nd)) (snd (snd nd))))
                               (combine_bench_names gathered))),
                   (total_accuracy_key,
                    accuracy (concat (map (\<lambda>nd. fst (snd nd)) (combine_bench_names gathered)))
                             (concat (map (\<lambda>nd. snd (snd nd)) (combine_bench_names gathered))))]))"
proof (cases "sum_list len_data_loader_ranks = 0")
  case True
  then show ?thesis by (simp add: compute_results_def)
next
  case False
  let ?c = "combine_bench_names gathered"
  let ?r0 = "[(loss_key,
               Num (sum_list loss_bench_ranks / real (sum_list len_data_loader_ranks)))]"
  have fr: "\<forall>n \<in> fst ` set ?c. accuracy_key n \<notin> fst ` set ?r0"
    by (simp add: accuracy_key_neq)
  note f = fold_score_entry[OF distinct_combine_bench_names fr, of accuracy "[]" "[]" "[]"]
  let ?r1 = "?r0 @ map (\<lambda>nd. (accuracy_key (fst nd),
                            Num (nan_to_zero (accuracy (fst (snd nd)) (snd (snd nd)))))) ?c"
  have a: "average_accuracy_key \<notin> fst ` set ?r1"
    using accuracy_key_neq accuracy_key_neq[symmetric] by (auto simp: image_iff)
  have b: "total_accuracy_key \<notin> fst ` set (?r1 @ [(average_accuracy_key, v)])" for v
    using accuracy_key_neq accuracy_key_neq[symmetric] by (auto simp: image_iff)
  show ?thesis
    using False unfolding compute_results_def Let_def f
    by (simp only: prod.case if_False update_fresh[OF a] update_fresh[OF b]) simp
qed

lemma map_of_merge_results:
  "distinct (map fst results) \<Longrightarrow>
     map_of (merge_results results m) = map_of m ++ map_of results"
  unfolding merge_results_def
proof (induction results arbitrary: m)
  case Nil
  then show ?case by simp
next
  case (Cons kv results)
  obtain k v where kv: "kv = (k, v)" by (cases kv)
  from Cons.prems kv have d: "distinct (map fst results)" and k: "k \<notin> fst ` set results" by auto
  from k have n: "map_of results k = None" by (simp add: map_of_eq_None_iff)
  show ?case
    unfolding kv fold_simps using Cons.IH[OF d, of "AList.update k v m"] n
    by (auto simp: AList.update_conv' fun_eq_iff map_add_def split: option.splits)
qed

lemma compute_results_distinct:
  assumes "compute_results accuracy ls ns gathered = Inr results"
  shows "distinct (map fst results)"
proof -
  have d: "distinct (map fst (combine_bench_names gathered))"
    by (rule distinct_combine_bench_names)
  have "distinct (map (\<lambda>nd. accuracy_key (fst nd)) (combine_bench_names gathered))"
    using d by (simp add: distinct_map inj_on_def accuracy_key_inj)
  then show ?thesis
    using assms accuracy_key_neq accuracy_key_neq[symmetric]
    unfolding compute_results_eq
    by (auto simp: comp_def image_iff split: if_splits)
qed

lemma compute_results_lookup:
  assumes "compute_results accuracy ls ns gathered = Inr results"
  shows "map_of results loss_key = Some (Num (sum_list ls / real (sum_list ns)))"
    and "map_of results average_accuracy_key =
           Some (np_mean (map (\<lambda>nd. nan_to_zero (accuracy (fst (snd nd)) (snd (snd nd))))
                            (combine_bench_names gathered)))"
    and "map_of results total_accuracy_key =
           Some (accuracy (concat (map (\<lambda>nd. fst (snd nd)) (combine_bench_names gathered)))
                          (concat (map (\<lambda>nd. snd (snd nd)) (combine_bench_names gathered))))"
    and "(n, d) \<in> set (combine_bench_names gathered) \<Longrightarrow>
           map_of results (accuracy_key n) = Some (Num (nan_to_zero (accuracy (fst d) (snd d))))"
proof -
  let ?c = "combine_bench_names gathered"
  let ?mid = "map (\<lambda>nd. (accuracy_key (fst nd),
                           Num (nan_to_zero (accuracy (fst (snd nd)) (snd (snd nd)))))) ?c"
  let ?avg = "np_mean (map (\<lambda>nd. nan_to_zero (accuracy (fst (snd nd)) (snd (snd nd)))) ?c)"
  let ?tot = "accuracy (concat (map (\<lambda>nd. fst (snd nd)) ?c)) (concat (map (\<lambda>nd. snd (snd nd)) ?c))"
  from assms have r: "results = (loss_key, Num (sum_list ls / real (sum_list ns)))
        # ?mid @ [(average_accuracy_key, ?avg), (total_accuracy_key, ?tot)]"
    unfolding compute_results_eq by (simp split: if_splits)
  have dist: "distinct (map fst results)" by (rule compute_results_distinct[OF assms])
  show "map_of results loss_key = Some (Num (sum_list ls / real (sum_list ns)))"
    unfolding r by simp
  have "(average_accuracy_key, ?avg) \<in> set results" unfolding r by simp
  then show "map_of results average_accuracy_key = Some ?avg"
    using dist by (rule map_of_is_SomeI[rotated])
  have "(total_accuracy_key, ?tot) \<in> set results" unfolding r by simp
  then show "map_of results total_accuracy_key = Some ?tot"
    using dist by (rule map_of_is_SomeI[rotated])
  show "map_of results (accuracy_key n) = Some (Num (nan_to_zero (accuracy (fst d) (snd d))))"
    if nd: "(n, d) \<in> set ?c"
  proof -
    from nd have "(accuracy_key n, Num (nan_to_zero (accuracy (fst d) (snd d)))) \<in> set ?mid"
      by (force simp: image_iff)
    then have "(accuracy_key n, Num (nan_to_zero (accuracy (fst d) (snd d)))) \<in> set results"
      unfolding r by simp
    then show ?thesis using dist by (rule map_of_is_SomeI[rotated])
  qed
qed

lemma map_of_Some_key: "map_of al k = Some v \<Longrightarrow> k \<in> fst ` set al"
  by (drule map_of_SomeD) force

lemma compute_results_returns:
  "sum_list ns \<noteq> 0 \<Longrightarrow> \<exists>results. compute_results accuracy ls ns gathered = Inr results"
  unfolding compute_results_eq by simp

lemma rank_results_main:
  assumes "world \<noteq> []" and "is_distributed \<or> length world = 1"
  shows "rank_results accuracy is_distributed world 0 =
           compute_results accuracy (map rank_loss_bench world) (map rank_len_data_loader world)
             (map rank_local_bench_names world)"
proof (cases is_distributed)
  case True
  then show ?thesis
    by (simp add: rank_results_def gather_scalar_from_all_ranks_def)
next
  case False
  with assms(2) obtain p where "world = [p]"
    by (cases world) auto
  with False show ?thesis
    by (simp add: rank_results_def gather_scalar_from_all_ranks_def)
qed

lemma toy_combined:
  "combine_bench_names (map rank_local_bench_names toy_world) =
     [(''math'', ([0, 1, 4, 5], [0, 2, 4, 5])), (''law'', ([], [])), (''bio'', ([3], [3]))]"
  by (simp add: combine_bench_names_def combine_entry_def toy_world_def)

text \<open>
  Claim C2. On the main process the entry \<open>eval_bench_loss\<close> of the results is the sum over
  all ranks of the accumulated loss of each rank (by \<open>bench_loop_loss\<close> the sum of its
  per-batch losses) divided by the sum over all ranks of the number of batches of each
  rank: the average of the per-batch losses weighted by batch count, not the mean of the
  averages of the ranks. With no batch at all the division raises ZeroDivisionError.
\<close>

theorem bench_loss_weighted_average:
  assumes "world \<noteq> []" and "is_distributed \<or> length world = 1"
  shows "(sum_list (map rank_len_data_loader world) = 0 \<longrightarrow>
            rank_results accuracy is_distributed world 0 = Inl ZeroDivisionError)
       \<and> (sum_list (map rank_len_data_loader world) \<noteq> 0 \<longrightarrow>
            (\<exists>results. rank_results accuracy is_distributed world 0 = Inr results
               \<and> map_of results ''eval_bench_loss''
                   = Some (Num (sum_list (map rank_loss_bench world)
                                  / real (sum_list (map rank_len_data_loader world))))))"
proof (intro conjI impI)
  assume "sum_list (map rank_len_data_loader world) = 0"
  then show "rank_results accuracy is_distributed world 0 = Inl ZeroDivisionError"
    unfolding rank_results_main[OF assms] by (simp add: compute_results_def)
next
  assume "sum_list (map rank_len_data_loader world) \<noteq> 0"
  from compute_results_returns[OF this] obtain results where
    r: "compute_results accuracy (map rank_loss_bench world) (map rank_len_data_loader world)
          (map rank_local_bench_names world) = Inr results"
    by blast
  from compute_results_lookup(1)[OF r] r
  show "\<exists>results. rank_results accuracy is_distributed world 0 = Inr results
               \<and> map_of results ''eval_bench_loss''
                   = Some (Num (sum_list (map rank_loss_bench world)
                                  / real (sum_list (map rank_len_data_loader world))))"
    unfolding rank_results_main[OF assms] result_keys(1) by blast
qed

theorem bench_loss_weighted_average_witness:
  "\<exists>results. rank_results toy_accuracy True toy_world 0 = Inr results
     \<and> map_of results ''eval_bench_loss'' = Some (Num (1 / 2))
     \<and> (2 / 1 + 0 / 3) / 2 \<noteq> (1 / 2 :: real)"
  using bench_loss_weighted_average[of toy_world True toy_accuracy]
  by (simp add: toy_world_def)

text \<open>
  Claim C3. The gathered dictionaries are merged by category name. In the results, the
  entry \<open>eval_bench_accuracy_{name}\<close> of every category is its accuracy, with 0 in place of
  NaN; \<open>eval_bench_average_accuracy\<close> is \<open>np.mean\<close> of these per-category scores, the
  unweighted mean in which a NaN category counts as 0; and \<open>eval_bench_total_accuracy\<close>
  is the accuracy over the concatenation of the references and the predictions of all
  categories.
\<close>

theorem bench_accuracy_macro_micro:
  assumes "sum_list len_data_loader_ranks \<noteq> 0"
  shows "\<exists>results.
      compute_results accuracy loss_bench_ranks len_data_loader_ranks gathered = Inr results
    \<and> (\<forall>n. map_of (combine_bench_names gathered) n =
          (if n \<in> fst ` set (concat gathered) then
             Some (concat (map (\<lambda>nd. fst (snd nd)) (filter (\<lambda>nd. fst nd = n) (concat gathered))),
                   concat (map (\<lambda>nd. snd (snd nd)) (filter (\<lambda>nd. fst nd = n) (concat gathered))))
           else None))
    \<and> (\<forall>nd \<in> set (combine_bench_names gathered).
          map_of results (''eval_bench_accuracy_'' @ fst nd)
            = Some (Num (nan_to_zero (accuracy (fst (snd nd)) (snd (snd nd))))))
    \<and> map_of results ''eval_bench_average_accuracy''
        = Some (np_mean (map (\<lambda>nd. nan_to_zero (accuracy (fst (snd nd)) (snd (snd nd))))
                           (combine_bench_names gathered)))
    \<and> map_of results ''eval_bench_total_accuracy''
        = Some (accuracy (concat (map (\<lambda>nd. fst (snd nd)) (combine_bench_names gathered)))
                         (concat (map (\<lambda>nd. snd (snd nd)) (combine_bench_names gathered))))"
proof -
  from compute_results_returns[OF assms] obtain results where
    r: "compute_results accuracy loss_bench_ranks len_data_loader_ranks gathered = Inr results"
    by blast
  have a: "\<forall>n. map_of (combine_bench_names gathered) n =
          (if n \<in> fst ` set (concat gathered) then
             Some (concat (map (\<lambda>nd. fst (snd nd)) (filter (\<lambda>nd. fst nd = n) (concat gathered))),
                   concat (map (\<lambda>nd. snd (snd nd)) (filter (\<lambda>nd. fst nd = n) (concat gathered))))
           else None)"
    using map_of_combine_bench_names by blast
  have b: "\<forall>nd \<in> set (combine_bench_names gathered).
          map_of results (''eval_bench_accuracy_'' @ fst nd)
            = Some (Num (nan_to_zero (accuracy (fst (snd nd)) (snd (snd nd)))))"
  proof
    fix nd assume "nd \<in> set (combine_bench_names gathered)"
    then have "(fst nd, snd nd) \<in> set (combine_bench_names gathered)" by simp
    from compute_results_lookup(4)[OF r this]
    show "map_of results (''eval_bench_accuracy_'' @ fst nd)
            = Some (Num (nan_to_zero (accuracy (fst (snd nd)) (snd (snd nd)))))"
      unfolding result_keys(2) .
  qed
  note c = compute_results_lookup(2)[OF r, unfolded result_keys(3)]
  note d = compute_results_lookup(3)[OF r, unfolded result_keys(4)]
  from r a b c d show ?thesis by blast
qed

theorem bench_accuracy_macro_micro_witness:
  "\<exists>results.
      compute_results toy_accuracy [2, 0] [1, 3] (map rank_local_bench_names toy_world)
        = Inr results
    \<and> map_of results ''eval_bench_accuracy_math'' = Some (Num (3 / 4))
    \<and> map_of results ''eval_bench_accuracy_law'' = Some (Num 0)
    \<and> map_of results ''eval_bench_accuracy_bio'' = Some (Num 1)
    \<and> map_of results ''eval_bench_average_accuracy'' = Some (Num (7 / 12))
    \<and> map_of results ''eval_bench_total_accuracy'' = Some (Num (4 / 5))"
proof -
  have s: "sum_list [1, 3 :: nat] \<noteq> 0" by simp
  from bench_accuracy_macro_micro[OF s, of toy_accuracy "[2, 0]"
         "map rank_local_bench_names toy_world"]
  obtain results where
    r: "compute_results toy_accuracy [2, 0] [1, 3] (map rank_local_bench_names toy_world)
          = Inr results"
    and each: "\<forall>nd \<in> set (combine_bench_names (map rank_local_bench_names toy_world)).
          map_of results (''eval_bench_accuracy_'' @ fst nd)
            = Some (Num (nan_to_zero (toy_accuracy (fst (snd nd)) (snd (snd nd)))))"
    and avg: "map_of results ''eval_bench_average_accuracy''
        = Some (np_mean (map (\<lambda>nd. nan_to_zero (toy_accuracy (fst (snd nd)) (snd (snd nd))))
                           (combine_bench_names (map rank_local_bench_names toy_world))))"
    and tot: "map_of results ''eval_bench_total_accuracy''
        = Some (toy_accuracy
                  (concat (map (\<lambda>nd. fst (snd nd))
                             (combine_bench_names (map rank_local_bench_names toy_world))))
                  (concat (map (\<lambda>nd. snd (snd nd))
                             (combine_bench_names (map rank_local_bench_names toy_world)))))"
    by blast
  from each have e: "map_of results ''eval_bench_accuracy_math'' = Some (Num (3 / 4))"
    "map_of results ''eval_bench_accuracy_law'' = Some (Num 0)"
    "map_of results ''eval_bench_accuracy_bio'' = Some (Num 1)"
    unfolding toy_combined by (simp_all add: toy_accuracy_def)
  from avg have a: "map_of results ''eval_bench_average_accuracy'' = Some (Num (7 / 12))"
    unfolding toy_combined by (simp add: toy_accuracy_def np_mean_def)
  from tot have t: "map_of results ''eval_bench_total_accuracy'' = Some (Num (4 / 5))"
    unfolding toy_combined by (simp add: toy_accuracy_def)
  from r e a t show ?thesis by blast
qed

text \<open>
  Claim C1. In a run that is distributed, or has a single process, and has at least one
  batch, \<open>on_evaluate\<close> returns on every process; the results computed on the main process
  hold the bench loss, the accuracy of every category, the average accuracy and the total
  accuracy, and every key and value of them is in the metrics of every process afterwards:
  the metrics of a process are its metrics on entry overwritten with the results of the
  main process.
\<close>

theorem on_evaluate_broadcast:
  assumes "world \<noteq> []" and "is_distributed \<or> length world = 1"
    and "sum_list (map rank_len_data_loader world) \<noteq> 0"
  shows "\<exists>results out.
      rank_results accuracy is_distributed world 0 = Inr results
    \<and> on_evaluate accuracy is_distributed world = Inr out
    \<and> length out = length world
    \<and> ''eval_bench_loss'' \<in> fst ` set results
    \<and> ''eval_bench_average_accuracy'' \<in> fst ` set results
    \<and> ''eval_bench_total_accuracy'' \<in> fst ` set results
    \<and> (\<forall>n \<in> fst ` set (concat (map rank_local_bench_names world)).
          ''eval_bench_accuracy_'' @ n \<in> fst ` set results)
    \<and> (\<forall>r<length world. \<forall>kv \<in> set results. map_of (out ! r) (fst kv) = Some (snd kv))
    \<and> (\<forall>r<length world. map_of (out ! r) = map_of (rank_metrics (world ! r)) ++ map_of results)"
proof -
  let ?n = "length world"
  let ?c = "combine_bench_names (map rank_local_bench_names world)"
  from compute_results_returns[OF assms(3)] obtain results where
    c: "compute_results accuracy (map rank_loss_bench world) (map rank_len_data_loader world)
          (map rank_local_bench_names world) = Inr results"
    by blast
  have r0: "rank_results accuracy is_distributed world 0 = Inr results"
    unfolding rank_results_main[OF assms(1,2)] by (rule c)
  have dist: "distinct (map fst results)" by (rule compute_results_distinct[OF c])
  let ?rs = "map (\<lambda>r. if r = 0 then results else []) [0..<?n]"
  have each: "\<forall>i<length [0..<?n]. rank_results accuracy is_distributed world ([0..<?n] ! i) = Inr (?rs ! i)"
  proof (intro allI impI)
    fix i assume i: "i < length [0..<?n]"
    show "rank_results accuracy is_distributed world ([0..<?n] ! i) = Inr (?rs ! i)"
    proof (cases "i = 0")
      case True
      with i r0 show ?thesis by simp
    next
      case False
      with i assms(2) have "is_distributed" by auto
      with False i show ?thesis by (simp add: rank_results_def)
    qed
  qed
  have em: "err_map (rank_results accuracy is_distributed world) [0..<?n] = Inr ?rs"
    unfolding err_map_Inr_iff using each by simp
  have z: "?rs ! 0 = results"
    using assms(1) by (simp add: nth_map)
  have bc: "broadcast_dict is_distributed ?rs r = results" if "r < ?n" for r
  proof (cases is_distributed)
    case True
    then show ?thesis unfolding broadcast_dict_def using z by simp
  next
    case False
    with assms(2) that have "r = 0" by simp
    with False show ?thesis unfolding broadcast_dict_def using z by simp
  qed
  let ?out = "map (\<lambda>r. merge_results (broadcast_dict is_distributed ?rs r)
                          (rank_metrics (world ! r))) [0..<?n]"
  have run: "on_evaluate accuracy is_distributed world = Inr ?out"
    unfolding on_evaluate_def em by simp
  have outr: "?out ! r = merge_results results (rank_metrics (world ! r))" if "r < ?n" for r
    using that bc[OF that] by simp
  have merged: "\<forall>r<?n. map_of (?out ! r) = map_of (rank_metrics (world ! r)) ++ map_of results"
    using outr map_of_merge_results[OF dist] by simp
  have entries: "\<forall>r<?n. \<forall>kv \<in> set results. map_of (?out ! r) (fst kv) = Some (snd kv)"
  proof (intro allI impI ballI)
    fix r kv assume r: "r < ?n" and kv: "kv \<in> set results"
    from kv have "(fst kv, snd kv) \<in> set results" by simp
    with dist have "map_of results (fst kv) = Some (snd kv)" by (rule map_of_is_SomeI)
    with merged r show "map_of (?out ! r) (fst kv) = Some (snd kv)"
      by (simp add: map_add_def)
  qed
  have k1: "''eval_bench_loss'' \<in> fst ` set results"
    using compute_results_lookup(1)[OF c] unfolding result_keys(1)
    by (rule map_of_Some_key)
  have k2: "''eval_bench_average_accuracy'' \<in> fst ` set results"
    using compute_results_lookup(2)[OF c] unfolding result_keys(3)
    by (rule map_of_Some_key)
  have k3: "''eval_bench_total_accuracy'' \<in> fst ` set results"
    using compute_results_lookup(3)[OF c] unfolding result_keys(4)
    by (rule map_of_Some_key)
  have k4: "\<forall>n \<in> fst ` set (concat (map rank_local_bench_names world)).
          ''eval_bench_accuracy_'' @ n \<in> fst ` set results"
  proof
    fix n assume n: "n \<in> fst ` set (concat (map rank_local_bench_names world))"
    then have "map_of ?c n \<noteq> None" unfolding map_of_combine_bench_names by simp
    then obtain d where "map_of ?c n = Some d" by blast
    then have "(n, d) \<in> set ?c" by (rule map_of_SomeD)
    from compute_results_lookup(4)[OF c this]
    show "''eval_bench_accuracy_'' @ n \<in> fst ` set results"
      unfolding result_keys(2) by (rule map_of_Some_key)
  qed
  have len: "length ?out = ?n" by simp
  from r0 run len k1 k2 k3 k4 entries merged show ?thesis by blast
qed

theorem on_evaluate_broadcast_witness:
  "\<exists>results out v.
      rank_results toy_accuracy True toy_world 0 = Inr results
    \<and> on_evaluate toy_accuracy True toy_world = Inr out
    \<and> length out = 2
    \<and> map_of results ''eval_bench_loss'' = Some v
    \<and> map_of (out ! 0) ''eval_bench_loss'' = Some v
    \<and> map_of (out ! 1) ''eval_bench_loss'' = Some v"
proof -
  have h1: "toy_world \<noteq> []" by (simp add: toy_world_def)
  have h2: "True \<or> length toy_world = 1" by simp
  have h3: "sum_list (map rank_len_data_loader toy_world) \<noteq> 0" by (simp add: toy_world_def)
  have l: "length toy_world = 2" by (simp add: toy_world_def)
  from on_evaluate_broadcast[OF h1 h2 h3, of toy_accuracy]
  obtain results out where
    r: "rank_results toy_accuracy True toy_world 0 = Inr results"
    and o: "on_evaluate toy_accuracy True toy_world = Inr out"
    and len: "length out = length toy_world"
    and k: "''eval_bench_loss'' \<in> fst ` set results"
    and e: "\<forall>r<length toy_world. \<forall>kv \<in> set results. map_of (out ! r) (fst kv) = Some (snd kv)"
    and m: "\<forall>r<length toy_world. map_of (out ! r) = map_of (rank_metrics (toy_world ! r)) ++ map_of results"
    by blast
  from k have "map_of results ''eval_bench_loss'' \<noteq> None"
    by (simp add: map_of_eq_None_iff)
  then obtain v where c: "map_of results ''eval_bench_loss'' = Some v" by blast
  then have kv: "(''eval_bench_loss'', v) \<in> set results" by (rule map_of_SomeD)
  have "0 < length toy_world" and "1 < length toy_world" using l by simp_all
  with e have "\<forall>kv \<in> set results. map_of (out ! 0) (fst kv) = Some (snd kv)"
    and "\<forall>kv \<in> set results. map_of (out ! 1) (fst kv) = Some (snd kv)"
    by blast+
  with kv have a: "map_of (out ! 0) ''eval_bench_loss'' = Some v"
    and b: "map_of (out ! 1) ''eval_bench_loss'' = Some v"
    by force+
  from r o len l a b c show ?thesis by auto
qed

end
